theory Spec2Isabelle
  imports
    Complex_Main
    "HOL-Library.Extended_Nat"
    "HOL-Library.Char_ord"
    "HOL-Library.List_Lexorder"
    "HOL-Library.AList"
begin

section \<open>Position tracker: snapshots, diff, P&L aggregator, statistics, rate gate\<close>

text \<open>
  A shallow embedding of the tracker bot with P&L tracking (\<^verbatim>\<open>src/unnamed/part_000\<close>).
  Conventions of the model:
  \<^item> JavaScript numbers that hold amounts, sizes and prices are \<open>real\<close>: IEEE rounding,
    overflow, signed zeros and NaN inputs are not modelled. Where the source writes
    \<^verbatim>\<open>x || 0\<close> on such a number the model writes \<open>x\<close> (the two differ only for NaN).
    The one place where the source divides by a value that can be zero and then compares the
    result (the drawdown loop) is modelled with the explicit non-finite values of \<open>jsnum\<close>.
  \<^item> \<^verbatim>\<open>Date.now()\<close> is a parameter \<open>now\<close> (milliseconds, \<open>int\<close>); one synchronous call of
    a function reads one value of the clock.
  \<^item> A JavaScript object used as a dictionary of positions is an association list in the
    order of \<^verbatim>\<open>Object.keys\<close> (insertion order for symbol names); global maps keyed by
    address or user id are partial functions, passed in and returned.
  \<^item> Notification texts are not rendered: a message is the record of the data its HTML
    text is built from (title, symbol, the position shown, the change lines).
\<close>

subsection \<open>Data model\<close>

record pos =
  symbol :: string
  position :: real
  avg_entry_price :: real
  sign :: int
  open_order_count :: nat
  unrealized_pnl :: real
  position_value :: real
  mark_price :: "real option"
  market_id :: nat

record snapshot =
  balance :: real
  positions :: "(string \<times> pos) list"

datatype side_t = LONG | SHORT

datatype trade_type = T_open | T_increase | T_partial_close | T_close

record trade =
  symbol_tr :: string
  side :: side_t
  size_tr :: real
  entryPrice :: real
  exitPrice :: "real option"
  pnl :: real
  timestamp :: int
  type_tr :: trade_type

record balance_record =
  balance_bh :: real
  timestamp_bh :: int

record pnl_state =
  totalPnL :: real
  realizedPnL :: real
  unrealizedPnL :: real
  trades :: nat
  startTime :: int
  initialBalance :: real
  lastBalance :: real
  tradeHistory :: "trade list"
  balanceHistory :: "balance_record list"

type_synonym wallet_pnl = "string \<rightharpoonup> pnl_state"

subsection \<open>Helpers for JavaScript idioms\<close>

text \<open>\<^verbatim>\<open>new Set([...Object.keys(a), ...Object.keys(b)])\<close> iterated with \<^verbatim>\<open>forEach\<close>: the keys
  of \<open>a\<close> in their order, then the keys of \<open>b\<close> not seen before (a Set keeps the first
  insertion of each value).\<close>

definition allSymbols :: "(string \<times> pos) list \<Rightarrow> (string \<times> pos) list \<Rightarrow> string list" where
  "allSymbols oldPositions newPositions =
     rev (remdups (rev (map fst oldPositions @ map fst newPositions)))"

text \<open>\<^verbatim>\<open>xs.slice(-n)\<close>: the last \<open>n\<close> elements.\<close>

definition slice_last :: "nat \<Rightarrow> 'a list \<Rightarrow> 'a list" where
  "slice_last n xs = drop (length xs - n) xs"

text \<open>\<^verbatim>\<open>sign === 1 ? 'LONG' : 'SHORT'\<close>\<close>

definition sideOf :: "int \<Rightarrow> side_t" where
  "sideOf sg = (if sg = 1 then LONG else SHORT)"

text \<open>\<^verbatim>\<open>mark_price || avg_entry_price\<close>: the mark price unless it is null or 0.\<close>

definition markOr :: "real option \<Rightarrow> real \<Rightarrow> real" where
  "markOr mp entry = (case mp of None \<Rightarrow> entry | Some m \<Rightarrow> if m = 0 then entry else m)"

subsection \<open>The diff: comparePositions\<close>

record message =
  title :: string
  msg_symbol :: string
  shown :: pos
  size_change :: "(real \<times> real) option"
  entry_change :: "(real \<times> real) option"

text \<open>The \<^verbatim>\<open>switch (action)\<close> of \<^verbatim>\<open>formatPositionUpdate\<close>, with its default branch.\<close>

definition actionTitle :: "string \<Rightarrow> string" where
  "actionTitle action =
     (if action = ''opened'' then ''POSITION OPENED''
      else if action = ''closed'' then ''POSITION CLOSED''
      else if action = ''increased'' then ''POSITION INCREASED''
      else if action = ''reduced'' then ''POSITION REDUCED''
      else ''POSITION UPDATED'')"

definition formatPositionUpdate :: "string \<Rightarrow> pos \<Rightarrow> string \<Rightarrow> message" where
  "formatPositionUpdate sy p action =
     \<lparr>title = actionTitle action, msg_symbol = sy, shown = p,
      size_change = None, entry_change = None\<rparr>"

text \<open>The body of the \<^verbatim>\<open>forEach\<close> of \<^verbatim>\<open>comparePositions\<close>: the messages pushed for one
  symbol (none or one).\<close>

definition compareSymbol ::
  "(string \<times> pos) list \<Rightarrow> (string \<times> pos) list \<Rightarrow> string \<Rightarrow> message list" where
  "compareSymbol oldPositions newPositions sy =
     (case (map_of oldPositions sy, map_of newPositions sy) of
        (None, Some n) \<Rightarrow> [formatPositionUpdate sy n ''opened'']
      | (Some o_, None) \<Rightarrow>
          [\<lparr>title = ''POSITION CLOSED'', msg_symbol = sy, shown = o_,
            size_change = None, entry_change = None\<rparr>]
      | (Some o_, Some n) \<Rightarrow>
          if position o_ \<noteq> position n \<or> avg_entry_price o_ \<noteq> avg_entry_price n then
            (let action = (if position n > position o_ then ''increased'' else ''reduced'');
                 msg = formatPositionUpdate sy n action;
                 msg1 = msg\<lparr>size_change := Some (position o_, position n)\<rparr>;
                 msg2 = (if avg_entry_price o_ \<noteq> avg_entry_price n
                         then msg1\<lparr>entry_change := Some (avg_entry_price o_, avg_entry_price n)\<rparr>
                         else msg1)
             in [msg2])
          else []
      | (None, None) \<Rightarrow> [])"

definition comparePositions :: "snapshot \<Rightarrow> snapshot \<Rightarrow> message list" where
  "comparePositions oldPos newPos =
     (let oldPositions = positions oldPos; newPositions = positions newPos
      in concat (map (compareSymbol oldPositions newPositions)
                     (allSymbols oldPositions newPositions)))"

subsection \<open>The P&L aggregator: initializeWalletPnL and updateWalletPnL\<close>

definition initializeWalletPnL :: "string \<Rightarrow> real \<Rightarrow> int \<Rightarrow> wallet_pnl \<Rightarrow> wallet_pnl" where
  "initializeWalletPnL address initBalance now walletPnL =
     (case walletPnL address of
        Some _ \<Rightarrow> walletPnL
      | None \<Rightarrow> walletPnL(address \<mapsto>
          \<lparr>totalPnL = 0, realizedPnL = 0, unrealizedPnL = 0, trades = 0,
           startTime = now, initialBalance = initBalance, lastBalance = initBalance,
           tradeHistory = [],
           balanceHistory = [\<lparr>balance_bh = initBalance, timestamp_bh = now\<rparr>]\<rparr>))"

text \<open>The four object literals \<^verbatim>\<open>const trade = {...}\<close> of \<^verbatim>\<open>updateWalletPnL\<close>.\<close>

definition closeRecord :: "string \<Rightarrow> pos \<Rightarrow> int \<Rightarrow> trade" where
  "closeRecord sy oldPos now =
     \<lparr>symbol_tr = sy, side = sideOf (sign oldPos), size_tr = position oldPos,
      entryPrice = avg_entry_price oldPos,
      exitPrice = Some (markOr (mark_price oldPos) (avg_entry_price oldPos)),
      pnl = unrealized_pnl oldPos, timestamp = now, type_tr = T_close\<rparr>"

definition openRecord :: "string \<Rightarrow> pos \<Rightarrow> int \<Rightarrow> trade" where
  "openRecord sy newPos now =
     \<lparr>symbol_tr = sy, side = sideOf (sign newPos), size_tr = position newPos,
      entryPrice = avg_entry_price newPos, exitPrice = None,
      pnl = 0, timestamp = now, type_tr = T_open\<rparr>"

definition increaseRecord :: "string \<Rightarrow> pos \<Rightarrow> real \<Rightarrow> int \<Rightarrow> trade" where
  "increaseRecord sy newPos sizeDiff now =
     \<lparr>symbol_tr = sy, side = sideOf (sign newPos), size_tr = sizeDiff,
      entryPrice = avg_entry_price newPos, exitPrice = None,
      pnl = 0, timestamp = now, type_tr = T_increase\<rparr>"

definition partialCloseRecord :: "string \<Rightarrow> pos \<Rightarrow> pos \<Rightarrow> real \<Rightarrow> int \<Rightarrow> trade" where
  "partialCloseRecord sy oldPos newPos sizeDiff now =
     \<lparr>symbol_tr = sy, side = sideOf (sign oldPos), size_tr = sizeDiff,
      entryPrice = avg_entry_price oldPos,
      exitPrice = Some (markOr (mark_price newPos) (avg_entry_price oldPos)),
      pnl = unrealized_pnl oldPos * (sizeDiff / position oldPos),
      timestamp = now, type_tr = T_partial_close\<rparr>"

text \<open>The body of \<^verbatim>\<open>allSymbols.forEach\<close> in \<^verbatim>\<open>updateWalletPnL\<close>: three \<^verbatim>\<open>if\<close> statements
  in sequence, each acting on the state the previous one left.\<close>

definition tradeStep ::
  "(string \<times> pos) list \<Rightarrow> (string \<times> pos) list \<Rightarrow> int \<Rightarrow> string \<Rightarrow> pnl_state \<Rightarrow> pnl_state" where
  "tradeStep oldPositions newPositions now sy st =
     (let oldPos = map_of oldPositions sy;
          newPos = map_of newPositions sy;
          st1 = (case (oldPos, newPos) of
                   (Some op, None) \<Rightarrow>
                     (let tr = closeRecord sy op now
                      in st\<lparr>tradeHistory := tradeHistory st @ [tr],
                            realizedPnL := realizedPnL st + pnl tr,
                            trades := trades st + 1\<rparr>)
                 | _ \<Rightarrow> st);
          st2 = (case (oldPos, newPos) of
                   (None, Some np) \<Rightarrow>
                     (let tr = openRecord sy np now
                      in st1\<lparr>tradeHistory := tradeHistory st1 @ [tr]\<rparr>)
                 | _ \<Rightarrow> st1);
          st3 = (case (oldPos, newPos) of
                   (Some op, Some np) \<Rightarrow>
                     if position op \<noteq> position np then
                       (let sizeDiff = \<bar>position np - position op\<bar>;
                            isIncrease = (position np > position op)
                        in if isIncrease then
                             (let tr = increaseRecord sy np sizeDiff now
                              in st2\<lparr>tradeHistory := tradeHistory st2 @ [tr]\<rparr>)
                           else
                             (let tr = partialCloseRecord sy op np sizeDiff now
                              in st2\<lparr>tradeHistory := tradeHistory st2 @ [tr],
                                     realizedPnL := realizedPnL st2 + pnl tr,
                                     trades := trades st2 + 1\<rparr>))
                     else st2
                 | _ \<Rightarrow> st2)
      in st3)"

text \<open>For the statements below: whether a record realises P&L (the records that
  \<^verbatim>\<open>getWalletPnLStats\<close> counts as closed trades), and the records the loop body appends for
  one symbol, read off \<open>tradeStep\<close> (lemma \<open>tradeStep_appends\<close> relates the two).\<close>

definition isClosing :: "trade \<Rightarrow> bool" where
  "isClosing t = (type_tr t = T_close \<or> type_tr t = T_partial_close)"

definition stepTrades ::
  "(string \<times> pos) list \<Rightarrow> (string \<times> pos) list \<Rightarrow> int \<Rightarrow> string \<Rightarrow> trade list" where
  "stepTrades oldPositions newPositions now sy =
     (case (map_of oldPositions sy, map_of newPositions sy) of
        (Some op, None) \<Rightarrow> [closeRecord sy op now]
      | (None, Some np) \<Rightarrow> [openRecord sy np now]
      | (Some op, Some np) \<Rightarrow>
          if position op = position np then []
          else if position np > position op
          then [increaseRecord sy np \<bar>position np - position op\<bar> now]
          else [partialCloseRecord sy op np \<bar>position np - position op\<bar> now]
      | (None, None) \<Rightarrow> [])"

text \<open>The state of one address after the \<^verbatim>\<open>forEach\<close> loop, before the totals, the balance
  record and the caps are written.\<close>

definition tradeLoop :: "snapshot \<Rightarrow> snapshot \<Rightarrow> int \<Rightarrow> pnl_state \<Rightarrow> pnl_state" where
  "tradeLoop oldState newState now st =
     fold (tradeStep (positions oldState) (positions newState) now)
          (allSymbols (positions oldState) (positions newState)) st"

definition finishUpdate :: "snapshot \<Rightarrow> int \<Rightarrow> pnl_state \<Rightarrow> pnl_state" where
  "finishUpdate newState now st1 =
     (let newBalance = balance newState;
          currentUnrealizedPnL =
            fold (\<lambda>p acc. acc + unrealized_pnl p) (map snd (positions newState)) 0;
          st2 = st1\<lparr>unrealizedPnL := currentUnrealizedPnL,
                    lastBalance := newBalance,
                    totalPnL := realizedPnL st1 + currentUnrealizedPnL\<rparr>;
          st3 = st2\<lparr>balanceHistory :=
                      balanceHistory st2 @ [\<lparr>balance_bh = newBalance, timestamp_bh = now\<rparr>]\<rparr>;
          st4 = (if length (balanceHistory st3) > 1000
                 then st3\<lparr>balanceHistory := slice_last 1000 (balanceHistory st3)\<rparr> else st3);
          st5 = (if length (tradeHistory st4) > 1000
                 then st4\<lparr>tradeHistory := slice_last 1000 (tradeHistory st4)\<rparr> else st4)
      in st5)"

definition updateWalletPnL ::
  "string \<Rightarrow> snapshot \<Rightarrow> snapshot \<Rightarrow> int \<Rightarrow> wallet_pnl \<Rightarrow> wallet_pnl" where
  "updateWalletPnL address oldState newState now walletPnL =
     (let wp = initializeWalletPnL address (balance newState) now walletPnL
      in case wp address of
           None \<Rightarrow> wp
         | Some st \<Rightarrow> wp(address \<mapsto> finishUpdate newState now (tradeLoop oldState newState now st)))"

subsection \<open>Statistics: getWalletPnLStats\<close>

text \<open>The values a JavaScript division can produce from finite operands, so far as the
  drawdown loop can tell them apart: a finite number, the two infinities and NaN.\<close>

datatype jsnum = Num real | PosInf | NegInf | NaN

text \<open>\<^verbatim>\<open>a / b\<close> for finite \<open>a\<close> and \<open>b\<close>: a zero divisor gives an infinity with the
  sign of \<open>a\<close>, or NaN for \<^verbatim>\<open>0 / 0\<close>.\<close>

definition js_div :: "real \<Rightarrow> real \<Rightarrow> jsnum" where
  "js_div a b =
     (if b \<noteq> 0 then Num (a / b)
      else if a > 0 then PosInf
      else if a < 0 then NegInf
      else NaN)"

text \<open>\<^verbatim>\<open>x * 100\<close>\<close>

fun js_times100 :: "jsnum \<Rightarrow> jsnum" where
  "js_times100 (Num x) = Num (x * 100)"
| "js_times100 PosInf = PosInf"
| "js_times100 NegInf = NegInf"
| "js_times100 NaN = NaN"

text \<open>\<^verbatim>\<open>x > y\<close>: false whenever an operand is NaN.\<close>

fun js_gt :: "jsnum \<Rightarrow> jsnum \<Rightarrow> bool" where
  "js_gt (Num a) (Num b) = (a > b)"
| "js_gt PosInf (Num b) = True"
| "js_gt PosInf NegInf = True"
| "js_gt (Num a) NegInf = True"
| "js_gt x y = False"

fun is_finite :: "jsnum \<Rightarrow> bool" where
  "is_finite (Num x) = True"
| "is_finite x = False"

definition closedTrades :: "pnl_state \<Rightarrow> trade list" where
  "closedTrades stats =
     filter (\<lambda>t. type_tr t = T_close \<or> type_tr t = T_partial_close) (tradeHistory stats)"

text \<open>The "effective equity" of one balance record: its balance plus the P&L of the trades
  up to its timestamp that are neither \<^verbatim>\<open>close\<close> nor \<^verbatim>\<open>partial_close\<close>.\<close>

definition totalValue :: "pnl_state \<Rightarrow> balance_record \<Rightarrow> real" where
  "totalValue stats record =
     balance_bh record +
     fold (\<lambda>t sum. sum + pnl t)
          (filter (\<lambda>t. timestamp t \<le> timestamp_bh record
                       \<and> type_tr t \<noteq> T_close \<and> type_tr t \<noteq> T_partial_close)
                  (tradeHistory stats)) 0"

record drawdown_vars =
  maxDrawdown :: jsnum
  peak :: real
  currentDrawdown :: jsnum

text \<open>The body of \<^verbatim>\<open>stats.balanceHistory.forEach\<close>.\<close>

definition drawdownStep :: "pnl_state \<Rightarrow> balance_record \<Rightarrow> drawdown_vars \<Rightarrow> drawdown_vars" where
  "drawdownStep stats record v =
     (let tv = totalValue stats record
      in if tv > peak v then v\<lparr>peak := tv, currentDrawdown := Num 0\<rparr>
         else (let cd = js_times100 (js_div (peak v - tv) (peak v));
                   v1 = v\<lparr>currentDrawdown := cd\<rparr>
               in if js_gt cd (maxDrawdown v1) then v1\<lparr>maxDrawdown := cd\<rparr> else v1))"

definition maxDrawdownOf :: "pnl_state \<Rightarrow> jsnum" where
  "maxDrawdownOf stats =
     maxDrawdown (fold (drawdownStep stats) (balanceHistory stats)
                       \<lparr>maxDrawdown = Num 0, peak = initialBalance stats, currentDrawdown = Num 0\<rparr>)"

text \<open>\<^verbatim>\<open>stats.tradeHistory.find(...)\<close>: the first record of the history, in array order, that
  is an \<^verbatim>\<open>open\<close> of the same symbol and side with a smaller timestamp.\<close>

definition openTradeFor :: "pnl_state \<Rightarrow> trade \<Rightarrow> trade option" where
  "openTradeFor stats tr =
     find (\<lambda>t. symbol_tr t = symbol_tr tr \<and> side t = side tr
                \<and> type_tr t = T_open \<and> timestamp t < timestamp tr)
          (tradeHistory stats)"

definition holdTimes :: "pnl_state \<Rightarrow> real list" where
  "holdTimes stats =
     filter (\<lambda>time. time > 0)
       (map (\<lambda>tr. case openTradeFor stats tr of
                     Some openTrade \<Rightarrow>
                       real_of_int (timestamp tr - timestamp openTrade) / (1000 * 60 * 60)
                   | None \<Rightarrow> 0)
            (closedTrades stats))"

text \<open>The average holding time in hours, before \<^verbatim>\<open>toFixed(1)\<close> rounds it for display.\<close>

definition avgHoldTime :: "pnl_state \<Rightarrow> real" where
  "avgHoldTime stats =
     (if length (closedTrades stats) > 0 then
        (let hts = holdTimes stats
         in if length hts > 0
            then fold (\<lambda>time sum. sum + time) hts 0 / real (length hts)
            else 0)
      else 0)"

record pnl_summary =
  maxDrawdown_s :: jsnum
  avgHoldTime_s :: real
  totalTrades_s :: nat

text \<open>The fields of the summary that the properties below are about; the other fields
  (win rate, averages, profit factor, expectancy) are formatted from the same histories.\<close>

definition getWalletPnLStats :: "wallet_pnl \<Rightarrow> string \<Rightarrow> pnl_summary option" where
  "getWalletPnLStats walletPnL address =
     (case walletPnL address of
        None \<Rightarrow> None
      | Some stats \<Rightarrow>
          Some \<lparr>maxDrawdown_s = maxDrawdownOf stats,
                avgHoldTime_s = avgHoldTime stats,
                totalTrades_s = length (closedTrades stats)\<rparr>)"

subsection \<open>The rate gate: checkRateLimit\<close>

record config =
  MAX_ADDRESSES_PER_USER :: nat
  RATE_LIMIT_PER_USER :: nat

definition CONFIG :: config where
  "CONFIG = \<lparr>MAX_ADDRESSES_PER_USER = 5, RATE_LIMIT_PER_USER = 30\<rparr>"

record limits =
  maxAddresses :: enat
  rateLimit :: enat

record user_limits =
  requests :: "int list"
  blocked :: bool

type_synonym rate_limits = "int \<rightharpoonup> user_limits"

text \<open>The whitelist file is read on every call; its content is the parameter \<open>whitelist\<close>.\<close>

definition isWhitelisted :: "int list \<Rightarrow> int \<Rightarrow> bool" where
  "isWhitelisted whitelist userId = (userId \<in> set whitelist)"

definition getUserLimits :: "config \<Rightarrow> int list \<Rightarrow> int \<Rightarrow> limits" where
  "getUserLimits cfg whitelist userId =
     (if isWhitelisted whitelist userId
      then \<lparr>maxAddresses = \<infinity>, rateLimit = \<infinity>\<rparr>
      else \<lparr>maxAddresses = enat (MAX_ADDRESSES_PER_USER cfg),
            rateLimit = enat (RATE_LIMIT_PER_USER cfg)\<rparr>)"

text \<open>\<^verbatim>\<open>checkRateLimit\<close> returns the verdict and the map as it leaves it. The object
  \<^verbatim>\<open>userLimits\<close> is the stored one when the map has an entry, so the filtered window and
  the \<^verbatim>\<open>blocked\<close> flag written before a rejection are visible in the map; a fresh object
  made for an unknown user is stored only by \<^verbatim>\<open>rateLimits.set\<close> on admission.\<close>

definition checkRateLimit ::
  "config \<Rightarrow> int list \<Rightarrow> int \<Rightarrow> int \<Rightarrow> rate_limits \<Rightarrow> bool \<times> rate_limits" where
  "checkRateLimit cfg whitelist userId now rateLimits =
     (let lim = getUserLimits cfg whitelist userId
      in if rateLimit lim = \<infinity> then (True, rateLimits)
         else
           (let userLimits = (case rateLimits userId of
                                Some u \<Rightarrow> u
                              | None \<Rightarrow> \<lparr>requests = [], blocked = False\<rparr>);
                reqs = filter (\<lambda>time. now - time < 60000) (requests userLimits)
            in if enat (length reqs) \<ge> rateLimit lim then
                 (False,
                  case rateLimits userId of
                    Some u \<Rightarrow> rateLimits(userId \<mapsto> u\<lparr>requests := reqs, blocked := True\<rparr>)
                  | None \<Rightarrow> rateLimits)
               else
                 (True,
                  rateLimits(userId \<mapsto> userLimits\<lparr>requests := reqs @ [now], blocked := False\<rparr>))))"

text \<open>A caller's calls at the times of a list, one after the other: the verdicts and the
  final map.\<close>

fun callSequence ::
  "config \<Rightarrow> int list \<Rightarrow> int \<Rightarrow> int list \<Rightarrow> rate_limits \<Rightarrow> bool list \<times> rate_limits" where
  "callSequence cfg whitelist userId [] rateLimits = ([], rateLimits)"
| "callSequence cfg whitelist userId (now # ts) rateLimits =
     (let (ok, rl1) = checkRateLimit cfg whitelist userId now rateLimits;
          (oks, rl2) = callSequence cfg whitelist userId ts rl1
      in (ok # oks, rl2))"

text \<open>The stored window of a user (empty when the map has no entry), and the times of a
  call sequence at which the call was admitted.\<close>

definition windowOf :: "rate_limits \<Rightarrow> int \<Rightarrow> int list" where
  "windowOf rateLimits userId =
     (case rateLimits userId of Some u \<Rightarrow> requests u | None \<Rightarrow> [])"

definition admittedTimes ::
  "config \<Rightarrow> int list \<Rightarrow> int \<Rightarrow> int list \<Rightarrow> rate_limits \<Rightarrow> int list" where
  "admittedTimes cfg whitelist userId ts rateLimits =
     map fst (filter snd (zip ts (fst (callSequence cfg whitelist userId ts rateLimits))))"

text \<open>For the rolling-window statement: \<open>a\<close> lies in the 60-second interval that starts
  at \<open>w\<close>.\<close>

definition inWindow :: "int \<Rightarrow> int \<Rightarrow> bool" where
  "inWindow w a = (w \<le> a \<and> a < w + 60000)"

text \<open>The gate is one map shared by all users: \<^verbatim>\<open>bot.use\<close> calls \<^verbatim>\<open>checkRateLimit\<close> for
  every incoming update, whoever sent it. \<open>gateRun\<close> runs the calls \<open>(userId, now)\<close> of
  all users in their order of arrival on the shared map and returns the trace
  \<open>(userId, now, verdict)\<close>; \<open>entriesOf\<close> are the entries of one user in a trace and
  \<open>callsOf\<close> the times of one user's calls.\<close>

fun gateRun ::
  "config \<Rightarrow> int list \<Rightarrow> (int \<times> int) list \<Rightarrow> rate_limits
     \<Rightarrow> (int \<times> int \<times> bool) list \<times> rate_limits" where
  "gateRun cfg whitelist [] rateLimits = ([], rateLimits)"
| "gateRun cfg whitelist ((userId, now) # calls) rateLimits =
     (let (ok, rl1) = checkRateLimit cfg whitelist userId now rateLimits;
          (trace, rl2) = gateRun cfg whitelist calls rl1
      in ((userId, now, ok) # trace, rl2))"

definition entriesOf :: "int \<Rightarrow> (int \<times> int \<times> bool) list \<Rightarrow> (int \<times> bool) list" where
  "entriesOf userId trace = map snd (filter (\<lambda>e. fst e = userId) trace)"

definition callsOf :: "int \<Rightarrow> (int \<times> int) list \<Rightarrow> int list" where
  "callsOf userId calls = map snd (filter (\<lambda>c. fst c = userId) calls)"

subsection \<open>Fetching a snapshot: fetchPositions\<close>

text \<open>A position object of the positions API after \<^verbatim>\<open>parseFloat\<close> of its numeric strings.\<close>

record raw_position =
  symbol_raw :: string
  position_raw :: real
  avg_entry_price_raw :: real
  sign_raw :: int
  open_order_count_raw :: nat
  unrealized_pnl_raw :: real
  position_value_raw :: real
  market_id_raw :: nat

record account =
  collateral :: real
  positions_acc :: "raw_position list"

text \<open>What \<^verbatim>\<open>fetchWithRetry\<close> gives \<^verbatim>\<open>fetchPositions\<close>: it throws (network error, HTTP
  error or timeout on the last retry), or it returns the JSON, of which only
  \<^verbatim>\<open>json.accounts?.[0]\<close> is read.\<close>

datatype fetch_result = Threw | Json "account option"

text \<open>\<open>checksum\<close> is the result of \<^verbatim>\<open>safeToChecksumAddress\<close> (\<open>None\<close> for null), and
  \<open>markPrice\<close> the result of \<^verbatim>\<open>fetchMarkPrice\<close> per market id (it catches its own errors
  and returns null, so every mark-price promise is fulfilled).\<close>

definition fetchPositions ::
  "string option \<Rightarrow> fetch_result \<Rightarrow> (nat \<Rightarrow> real option) \<Rightarrow> snapshot" where
  "fetchPositions checksum fetched markPrice =
     (case checksum of
        None \<Rightarrow> \<lparr>balance = 0, positions = []\<rparr>
      | Some address \<Rightarrow>
          (case fetched of
             Threw \<Rightarrow> \<lparr>balance = 0, positions = []\<rparr>
           | Json None \<Rightarrow> \<lparr>balance = 0, positions = []\<rparr>
           | Json (Some acc) \<Rightarrow>
               \<lparr>balance = collateral acc,
                positions =
                  fold (\<lambda>r ps. AList.update (symbol_raw r)
                          \<lparr>symbol = symbol_raw r,
                           position = \<bar>position_raw r\<bar>,
                           avg_entry_price = avg_entry_price_raw r,
                           sign = sign_raw r,
                           open_order_count = open_order_count_raw r,
                           unrealized_pnl = unrealized_pnl_raw r,
                           position_value = position_value_raw r,
                           mark_price = markPrice (market_id_raw r),
                           market_id = market_id_raw r\<rparr> ps)
                       (filter (\<lambda>r. position_raw r \<noteq> 0) (positions_acc acc)) []\<rparr>))"

subsection \<open>One address's task in the monitoring cycle\<close>

record monitor_state =
  previousStates :: "string \<rightharpoonup> snapshot"
  walletPnL :: wallet_pnl

text \<open>The async callback run for one tracked address in the \<^verbatim>\<open>setInterval\<close> monitor. The
  loop that records chart markers, draws the chart and sends each message touches neither
  the snapshots nor the P&L state; \<open>dispatchOk\<close> says whether it ran to its end
  (\<^verbatim>\<open>getCandles\<close> and \<^verbatim>\<open>renderChart\<close> can throw, which rejects the task before its last
  assignment to \<^verbatim>\<open>previousStates\<close>).\<close>

definition monitorAddress ::
  "string \<Rightarrow> string option \<Rightarrow> fetch_result \<Rightarrow> (nat \<Rightarrow> real option) \<Rightarrow> bool \<Rightarrow> int
     \<Rightarrow> monitor_state \<Rightarrow> monitor_state" where
  "monitorAddress address checksum fetched markPrice dispatchOk now ms =
     (let newState = fetchPositions checksum fetched markPrice
      in case previousStates ms address of
           None \<Rightarrow> ms\<lparr>previousStates := (previousStates ms)(address \<mapsto> newState)\<rparr>
         | Some oldState \<Rightarrow>
             (let diffs = comparePositions oldState newState
              in if length diffs = 0
                 then ms\<lparr>previousStates := (previousStates ms)(address \<mapsto> newState)\<rparr>
                 else
                   (let ms1 = ms\<lparr>walletPnL :=
                                    updateWalletPnL address oldState newState now (walletPnL ms)\<rparr>
                    in if dispatchOk
                       then ms1\<lparr>previousStates := (previousStates ms1)(address \<mapsto> newState)\<rparr>
                       else ms1)))"

subsection \<open>Example data\<close>

text \<open>The snapshots and states at which the theorems below are instantiated: the
  scenarios of the specification (a BTC position of size 1 with unrealized P&L 200 that is
  closed, an ETH position reduced from 10 to 6 units) and the inputs at which the code and
  the specification part.\<close>

definition btcPos :: pos where
  "btcPos = \<lparr>symbol = ''BTC'', position = 1, avg_entry_price = 50000, sign = 1,
             open_order_count = 0, unrealized_pnl = 200, position_value = 50200,
             mark_price = Some 50200, market_id = 1\<rparr>"

definition ethPos10 :: pos where
  "ethPos10 = \<lparr>symbol = ''ETH'', position = 10, avg_entry_price = 2000, sign = 1,
             open_order_count = 0, unrealized_pnl = 100, position_value = 20100,
             mark_price = Some 2010, market_id = 0\<rparr>"

definition ethPos6 :: pos where
  "ethPos6 = ethPos10\<lparr>position := 6, unrealized_pnl := 60, position_value := 12060\<rparr>"

definition snapshotA :: snapshot where
  "snapshotA = \<lparr>balance = 1000, positions = [(''BTC'', btcPos)]\<rparr>"

definition snapshotB :: snapshot where
  "snapshotB = \<lparr>balance = 1200, positions = []\<rparr>"

definition snapshotE10 :: snapshot where
  "snapshotE10 = \<lparr>balance = 1000, positions = [(''ETH'', ethPos10)]\<rparr>"

definition snapshotE6 :: snapshot where
  "snapshotE6 = \<lparr>balance = 1040, positions = [(''ETH'', ethPos6)]\<rparr>"

definition freshState :: pnl_state where
  "freshState = \<lparr>totalPnL = 0, realizedPnL = 0, unrealizedPnL = 0, trades = 0,
           startTime = 0, initialBalance = 1000, lastBalance = 1000,
           tradeHistory = [],
           balanceHistory = [\<lparr>balance_bh = 1000, timestamp_bh = 0\<rparr>]\<rparr>"

definition solPos :: pos where
  "solPos = \<lparr>symbol = ''SOL'', position = 20, avg_entry_price = 150, sign = - 1,
             open_order_count = 0, unrealized_pnl = 500, position_value = 2500,
             mark_price = Some 125, market_id = 2\<rparr>"

definition storedState :: pnl_state where
  "storedState = \<lparr>totalPnL = 500, realizedPnL = 500, unrealizedPnL = 0, trades = 3,
           startTime = 0, initialBalance = 1000, lastBalance = 1500,
           tradeHistory = [openRecord ''SOL'' solPos 1, closeRecord ''SOL'' solPos 2],
           balanceHistory = [\<lparr>balance_bh = 1000, timestamp_bh = 0\<rparr>,
                             \<lparr>balance_bh = 1500, timestamp_bh = 2\<rparr>]\<rparr>"

definition sharedCalls :: "(int \<times> int) list" where
  "sharedCalls = map (\<lambda>i. (7, 1000 * int i)) [0..<30] @ [(8, 29500), (7, 30000)]"

definition snapshotFailed :: snapshot where
  "snapshotFailed = \<lparr>balance = 0, positions = []\<rparr>"

definition snapshotNegative :: snapshot where
  "snapshotNegative = \<lparr>balance = - 50, positions = [(''ETH'', ethPos10)]\<rparr>"

definition drawdownState :: pnl_state where
  "drawdownState =
     \<lparr>totalPnL = 300, realizedPnL = 200, unrealizedPnL = 100, trades = 1,
      startTime = 5, initialBalance = 0, lastBalance = - 50,
      tradeHistory = [closeRecord ''BTC'' btcPos 5, openRecord ''ETH'' ethPos10 6],
      balanceHistory = [\<lparr>balance_bh = 0, timestamp_bh = 5\<rparr>,
                        \<lparr>balance_bh = 0, timestamp_bh = 5\<rparr>,
                        \<lparr>balance_bh = - 50, timestamp_bh = 6\<rparr>]\<rparr>"

definition snapshotEB :: snapshot where
  "snapshotEB = \<lparr>balance = 1000, positions = [(''ETH'', ethPos10), (''BTC'', btcPos)]\<rparr>"

definition snapshotBE :: snapshot where
  "snapshotBE = \<lparr>balance = 1000, positions = [(''BTC'', btcPos), (''ETH'', ethPos10)]\<rparr>"

definition btcRaw :: raw_position where
  "btcRaw = \<lparr>symbol_raw = ''BTC'', position_raw = 1, avg_entry_price_raw = 50000,
             sign_raw = 1, open_order_count_raw = 0, unrealized_pnl_raw = 250,
             position_value_raw = 50250, market_id_raw = 1\<rparr>"

definition accountBTC :: account where
  "accountBTC = \<lparr>collateral = 1010, positions_acc = [btcRaw]\<rparr>"

definition monitorEx :: monitor_state where
  "monitorEx = \<lparr>previousStates = [''0xA'' \<mapsto> snapshotA], walletPnL = [''0xA'' \<mapsto> freshState]\<rparr>"

definition ethPos10b :: pos where
  "ethPos10b = ethPos10\<lparr>avg_entry_price := 2100\<rparr>"

definition snapshotE10b :: snapshot where
  "snapshotE10b = \<lparr>balance = 1000, positions = [(''ETH'', ethPos10b)]\<rparr>"

definition open1 :: trade where
  "open1 = openRecord ''BTC'' btcPos 0"

definition close1 :: trade where
  "close1 = closeRecord ''BTC'' btcPos 36000000"

definition open2 :: trade where
  "open2 = openRecord ''BTC'' btcPos 72000000"

definition close2 :: trade where
  "close2 = closeRecord ''BTC'' btcPos 108000000"

definition holdState :: pnl_state where
  "holdState = freshState\<lparr>tradeHistory := [open1, close1, open2, close2],
                            realizedPnL := 400, totalPnL := 400, trades := 2\<rparr>"

section \<open>Properties\<close>

subsection \<open>What the aggregator loop appends\<close>

lemma tradeStep_appends:
  "tradeStep old new now sy st =
     st\<lparr>tradeHistory := tradeHistory st @ stepTrades old new now sy,
        realizedPnL := realizedPnL st + sum_list (map pnl (filter isClosing (stepTrades old new now sy))),
        trades := trades st + length (filter isClosing (stepTrades old new now sy))\<rparr>"
  by (simp add: tradeStep_def stepTrades_def isClosing_def Let_def closeRecord_def openRecord_def
        increaseRecord_def partialCloseRecord_def split: option.splits)

lemma fold_tradeStep:
  "fold (tradeStep old new now) syms st =
     st\<lparr>tradeHistory := tradeHistory st @ concat (map (stepTrades old new now) syms),
        realizedPnL := realizedPnL st
           + sum_list (map pnl (filter isClosing (concat (map (stepTrades old new now) syms)))),
        trades := trades st
           + length (filter isClosing (concat (map (stepTrades old new now) syms)))\<rparr>"
proof (induction syms arbitrary: st)
  case Nil
  then show ?case by simp
next
  case (Cons s syms)
  show ?case
    by (simp add: Cons.IH) (simp add: tradeStep_appends add.assoc)
qed

lemma stepTrades_symbol: "t \<in> set (stepTrades old new now sy) \<Longrightarrow> symbol_tr t = sy"
  by (auto simp: stepTrades_def closeRecord_def openRecord_def increaseRecord_def
        partialCloseRecord_def split: option.splits if_splits)

lemma distinct_allSymbols: "distinct (allSymbols old new)"
  by (simp add: allSymbols_def)

lemma set_allSymbols: "set (allSymbols old new) = fst ` set old \<union> fst ` set new"
  by (auto simp: allSymbols_def)

lemma stepTrades_in_allSymbols:
  assumes "stepTrades old new now sy \<noteq> []"
  shows "sy \<in> set (allSymbols old new)"
proof -
  from assms have "map_of old sy \<noteq> None \<or> map_of new sy \<noteq> None"
    by (auto simp: stepTrades_def split: option.splits)
  then have "sy \<in> fst ` set old \<or> sy \<in> fst ` set new"
    by (auto simp: map_of_eq_None_iff)
  then show ?thesis by (simp add: set_allSymbols)
qed

lemma loop_split:
  assumes "stepTrades old new now sy \<noteq> []"
  shows "\<exists>before after.
           concat (map (stepTrades old new now) (allSymbols old new))
             = before @ stepTrades old new now sy @ after
           \<and> (\<forall>t\<in>set (before @ after). symbol_tr t \<noteq> sy)"
proof -
  have d: "distinct (allSymbols old new)" by (rule distinct_allSymbols)
  from stepTrades_in_allSymbols[OF assms] obtain pre post
    where sp: "allSymbols old new = pre @ sy # post"
    by (auto dest: split_list)
  from d sp have notin: "sy \<notin> set pre" "sy \<notin> set post" by auto
  let ?f = "stepTrades old new now"
  have eq: "concat (map ?f (allSymbols old new)) = concat (map ?f pre) @ ?f sy @ concat (map ?f post)"
    by (simp add: sp)
  have other: "\<forall>t\<in>set (concat (map ?f pre) @ concat (map ?f post)). symbol_tr t \<noteq> sy"
    using notin by (auto dest: stepTrades_symbol)
  from eq other show ?thesis by blast
qed

lemma finishUpdate_fields:
  "realizedPnL (finishUpdate newState now st) = realizedPnL st"
  "trades (finishUpdate newState now st) = trades st"
  "tradeHistory (finishUpdate newState now st) = slice_last 1000 (tradeHistory st)"
  by (simp_all add: finishUpdate_def Let_def slice_last_def)

lemma updateWalletPnL_at:
  "\<exists>st0. initializeWalletPnL address (balance newState) now wp address = Some st0
        \<and> updateWalletPnL address oldState newState now wp address
            = Some (finishUpdate newState now (tradeLoop oldState newState now st0))"
  by (cases "wp address") (simp_all add: updateWalletPnL_def initializeWalletPnL_def)

lemma updateWalletPnL_prior:
  "\<exists>st0. initializeWalletPnL address (balance newState) now wp address = Some st0
        \<and> st0 = (case wp address of
                         Some stored \<Rightarrow> stored
                       | None \<Rightarrow>
                         \<lparr>totalPnL = 0, realizedPnL = 0, unrealizedPnL = 0, trades = 0,
                          startTime = now, initialBalance = balance newState,
                          lastBalance = balance newState, tradeHistory = [],
                          balanceHistory = [\<lparr>balance_bh = balance newState, timestamp_bh = now\<rparr>]\<rparr>)
        \<and> updateWalletPnL address oldState newState now wp address
            = Some (finishUpdate newState now (tradeLoop oldState newState now st0))"
  by (cases "wp address") (simp_all add: updateWalletPnL_def initializeWalletPnL_def)

lemma update_contribution:
  assumes one: "stepTrades (positions oldState) (positions newState) now sy = [r]"
  shows "\<exists>st0 st' before after.
           initializeWalletPnL address (balance newState) now wp address = Some st0
         \<and> st0 = (case wp address of
                      Some stored \<Rightarrow> stored
                    | None \<Rightarrow>
                      \<lparr>totalPnL = 0, realizedPnL = 0, unrealizedPnL = 0, trades = 0,
                       startTime = now, initialBalance = balance newState,
                       lastBalance = balance newState, tradeHistory = [],
                       balanceHistory = [\<lparr>balance_bh = balance newState, timestamp_bh = now\<rparr>]\<rparr>)
         \<and> updateWalletPnL address oldState newState now wp address = Some st'
         \<and> tradeHistory st' = slice_last 1000 (tradeHistory st0 @ before @ [r] @ after)
         \<and> (\<forall>t\<in>set (before @ after). symbol_tr t \<noteq> sy)
         \<and> realizedPnL st' = realizedPnL st0 + sum_list (map pnl (filter isClosing [r]))
                               + sum_list (map pnl (filter isClosing (before @ after)))
         \<and> trades st' = trades st0 + length (filter isClosing [r])
                               + length (filter isClosing (before @ after))"
proof -
  obtain st0 where i: "initializeWalletPnL address (balance newState) now wp address = Some st0"
    and l: "st0 = (case wp address of
                      Some stored \<Rightarrow> stored
                    | None \<Rightarrow>
                      \<lparr>totalPnL = 0, realizedPnL = 0, unrealizedPnL = 0, trades = 0,
                       startTime = now, initialBalance = balance newState,
                       lastBalance = balance newState, tradeHistory = [],
                       balanceHistory = [\<lparr>balance_bh = balance newState, timestamp_bh = now\<rparr>]\<rparr>)"
    and u: "updateWalletPnL address oldState newState now wp address
            = Some (finishUpdate newState now (tradeLoop oldState newState now st0))"
    using updateWalletPnL_prior by blast
  from one have ne: "stepTrades (positions oldState) (positions newState) now sy \<noteq> []" by simp
  from loop_split[OF ne] one obtain before after where
    c: "concat (map (stepTrades (positions oldState) (positions newState) now)
                    (allSymbols (positions oldState) (positions newState)))
          = before @ [r] @ after"
    and o: "\<forall>t\<in>set (before @ after). symbol_tr t \<noteq> sy"
    by auto
  let ?L = "tradeLoop oldState newState now st0"
  have h: "tradeHistory ?L = tradeHistory st0 @ before @ [r] @ after"
    unfolding tradeLoop_def by (subst fold_tradeStep) (simp add: c)
  have rp: "realizedPnL ?L = realizedPnL st0 + sum_list (map pnl (filter isClosing [r]))
                               + sum_list (map pnl (filter isClosing (before @ after)))"
    unfolding tradeLoop_def by (subst fold_tradeStep) (simp add: c)
  have tc: "trades ?L = trades st0 + length (filter isClosing [r])
                               + length (filter isClosing (before @ after))"
    unfolding tradeLoop_def by (subst fold_tradeStep) (simp add: c)
  let ?st' = "finishUpdate newState now ?L"
  have "initializeWalletPnL address (balance newState) now wp address = Some st0
         \<and> st0 = (case wp address of
                      Some stored \<Rightarrow> stored
                    | None \<Rightarrow>
                      \<lparr>totalPnL = 0, realizedPnL = 0, unrealizedPnL = 0, trades = 0,
                       startTime = now, initialBalance = balance newState,
                       lastBalance = balance newState, tradeHistory = [],
                       balanceHistory = [\<lparr>balance_bh = balance newState, timestamp_bh = now\<rparr>]\<rparr>)
         \<and> updateWalletPnL address oldState newState now wp address = Some ?st'
         \<and> tradeHistory ?st' = slice_last 1000 (tradeHistory st0 @ before @ [r] @ after)
         \<and> (\<forall>t\<in>set (before @ after). symbol_tr t \<noteq> sy)
         \<and> realizedPnL ?st' = realizedPnL st0 + sum_list (map pnl (filter isClosing [r]))
                               + sum_list (map pnl (filter isClosing (before @ after)))
         \<and> trades ?st' = trades st0 + length (filter isClosing [r])
                               + length (filter isClosing (before @ after))"
    using i l u o h rp tc by (simp only: finishUpdate_fields)
  then show ?thesis by blast
qed

lemma stepTrades_close:
  "map_of old sy = Some op \<Longrightarrow> map_of new sy = None
     \<Longrightarrow> stepTrades old new now sy = [closeRecord sy op now]"
  by (simp add: stepTrades_def)

text \<open>
  Claim C2. For a symbol present in the old snapshot and absent from the new one, the loop
  body of the aggregator appends exactly one record, of kind \<^verbatim>\<open>close\<close>, whose \<open>pnl\<close> is the
  old position's unrealized P&L, adds that amount to \<open>realizedPnL\<close> and increments \<open>trades\<close>
  by one. In the whole update the records appended for the other symbols (\<open>before\<close>,
  \<open>after\<close>) carry other symbol names, so the symbol contributes exactly this one record,
  this amount and this one count; the stored history is the last 1000 records. The state
  \<open>st0\<close> that the update extends is the state stored for the address, or the initial state
  when none is stored, so the record is appended to the address's history and the amount
  and the count are added to its running totals.
\<close>

theorem closed_position_is_realised:
  assumes o: "map_of (positions oldState) sy = Some op"
      and n: "map_of (positions newState) sy = None"
  shows "tradeStep (positions oldState) (positions newState) now sy st
           = st\<lparr>tradeHistory := tradeHistory st @ [closeRecord sy op now],
                realizedPnL := realizedPnL st + unrealized_pnl op,
                trades := trades st + 1\<rparr>
       \<and> type_tr (closeRecord sy op now) = T_close
       \<and> pnl (closeRecord sy op now) = unrealized_pnl op
       \<and> (\<exists>st0 st' before after.
             initializeWalletPnL address (balance newState) now wp address = Some st0
           \<and> st0 = (case wp address of
                        Some stored \<Rightarrow> stored
                      | None \<Rightarrow>
                        \<lparr>totalPnL = 0, realizedPnL = 0, unrealizedPnL = 0, trades = 0,
                         startTime = now, initialBalance = balance newState,
                         lastBalance = balance newState, tradeHistory = [],
                         balanceHistory = [\<lparr>balance_bh = balance newState, timestamp_bh = now\<rparr>]\<rparr>)
           \<and> updateWalletPnL address oldState newState now wp address = Some st'
           \<and> tradeHistory st'
                = slice_last 1000 (tradeHistory st0 @ before @ [closeRecord sy op now] @ after)
           \<and> (\<forall>t\<in>set (before @ after). symbol_tr t \<noteq> sy)
           \<and> realizedPnL st' = realizedPnL st0 + unrealized_pnl op
                                 + sum_list (map pnl (filter isClosing (before @ after)))
           \<and> trades st' = trades st0 + 1 + length (filter isClosing (before @ after)))"
proof -
  have one: "stepTrades (positions oldState) (positions newState) now sy = [closeRecord sy op now]"
    using o n by (rule stepTrades_close)
  have cl: "isClosing (closeRecord sy op now)" "pnl (closeRecord sy op now) = unrealized_pnl op"
    "type_tr (closeRecord sy op now) = T_close"
    by (simp_all add: isClosing_def closeRecord_def)
  have body: "tradeStep (positions oldState) (positions newState) now sy st
           = st\<lparr>tradeHistory := tradeHistory st @ [closeRecord sy op now],
                realizedPnL := realizedPnL st + unrealized_pnl op,
                trades := trades st + 1\<rparr>"
    by (simp add: tradeStep_appends one cl)
  from update_contribution[OF one, of address wp] cl body show ?thesis
    by simp
qed

theorem closed_position_is_realised_witness:
  "map_of (positions snapshotA) ''BTC'' = Some btcPos
   \<and> map_of (positions snapshotB) ''BTC'' = None
   \<and> tradeStep (positions snapshotA) (positions snapshotB) 5 ''BTC'' freshState
       = freshState\<lparr>tradeHistory := [closeRecord ''BTC'' btcPos 5], realizedPnL := 200, trades := 1\<rparr>
   \<and> type_tr (closeRecord ''BTC'' btcPos 5) = T_close
   \<and> pnl (closeRecord ''BTC'' btcPos 5) = 200
   \<and> (\<exists>st'. updateWalletPnL ''0xA'' snapshotA snapshotB 5 Map.empty ''0xA'' = Some st'
          \<and> tradeHistory st' = [closeRecord ''BTC'' btcPos 5]
          \<and> realizedPnL st' = 200 \<and> trades st' = 1)
   \<and> realizedPnL storedState = 500 \<and> trades storedState = 3
   \<and> (\<exists>st'. updateWalletPnL ''0xA'' snapshotA snapshotB 5 [''0xA'' \<mapsto> storedState] ''0xA''
                = Some st'
          \<and> tradeHistory st' = tradeHistory storedState @ [closeRecord ''BTC'' btcPos 5]
          \<and> realizedPnL st' = 700 \<and> trades st' = 4)"
proof -
  have h1: "map_of (positions snapshotA) ''BTC'' = Some btcPos" by (simp add: snapshotA_def)
  have h2: "map_of (positions snapshotB) ''BTC'' = None" by (simp add: snapshotB_def)
  have ev: "\<exists>st'. updateWalletPnL ''0xA'' snapshotA snapshotB 5 Map.empty ''0xA'' = Some st'
          \<and> tradeHistory st' = [closeRecord ''BTC'' btcPos 5]
          \<and> realizedPnL st' = 200 \<and> trades st' = 1"
    by (simp add: updateWalletPnL_def initializeWalletPnL_def tradeLoop_def allSymbols_def
          tradeStep_def finishUpdate_def slice_last_def snapshotA_def snapshotB_def Let_def
          closeRecord_def btcPos_def)
  have sv: "realizedPnL storedState = 500 \<and> trades storedState = 3"
    by (simp add: storedState_def)
  have es: "\<exists>st'. updateWalletPnL ''0xA'' snapshotA snapshotB 5 [''0xA'' \<mapsto> storedState] ''0xA''
                = Some st'
          \<and> tradeHistory st' = tradeHistory storedState @ [closeRecord ''BTC'' btcPos 5]
          \<and> realizedPnL st' = 700 \<and> trades st' = 4"
    by (simp add: updateWalletPnL_def initializeWalletPnL_def tradeLoop_def allSymbols_def
          tradeStep_def finishUpdate_def slice_last_def snapshotA_def snapshotB_def Let_def
          closeRecord_def btcPos_def storedState_def)
  from closed_position_is_realised[OF h1 h2, where now=5 and st=freshState
      and address="''0xA''" and wp=Map.empty]
    closed_position_is_realised[OF h1 h2, where now=5 and st=freshState
      and address="''0xA''" and wp="[''0xA'' \<mapsto> storedState]"] h1 h2 ev sv es
  show ?thesis by (simp add: freshState_def btcPos_def)
qed

lemma stepTrades_partial:
  "map_of old sy = Some op \<Longrightarrow> map_of new sy = Some np \<Longrightarrow> position np < position op
     \<Longrightarrow> stepTrades old new now sy = [partialCloseRecord sy op np (position op - position np) now]"
  by (simp add: stepTrades_def)

text \<open>
  Claim C3. For a symbol present in both snapshots whose new size is strictly smaller than
  its old size (sizes being positive), the aggregator appends exactly one record, of kind
  \<^verbatim>\<open>partial_close\<close>, with size the size delta and \<open>pnl\<close> the old unrealized P&L times
  \<open>sizeDelta / oldSize\<close>, adds that \<open>pnl\<close> to \<open>realizedPnL\<close> and increments \<open>trades\<close>.
  The state \<open>st0\<close> that the update extends is the state stored for the address, or the
  initial state when none is stored. The witness is the scenario of a 10-unit position
  with unrealized P&L 100 reduced to 6 units: size 4, pnl 40, on a new address and on an
  address whose stored totals are 500 and 3.
\<close>

theorem partial_close_is_proportional:
  assumes o: "map_of (positions oldState) sy = Some op"
      and n: "map_of (positions newState) sy = Some np"
      and lt: "position np < position op"
      and pos: "0 < position np"
  shows "tradeStep (positions oldState) (positions newState) now sy st
           = st\<lparr>tradeHistory := tradeHistory st
                    @ [partialCloseRecord sy op np (position op - position np) now],
                realizedPnL := realizedPnL st
                    + unrealized_pnl op * ((position op - position np) / position op),
                trades := trades st + 1\<rparr>
       \<and> type_tr (partialCloseRecord sy op np (position op - position np) now) = T_partial_close
       \<and> size_tr (partialCloseRecord sy op np (position op - position np) now)
           = position op - position np
       \<and> pnl (partialCloseRecord sy op np (position op - position np) now)
           = unrealized_pnl op * ((position op - position np) / position op)
       \<and> position op \<noteq> 0
       \<and> (\<exists>st0 st' before after.
             initializeWalletPnL address (balance newState) now wp address = Some st0
           \<and> st0 = (case wp address of
                        Some stored \<Rightarrow> stored
                      | None \<Rightarrow>
                        \<lparr>totalPnL = 0, realizedPnL = 0, unrealizedPnL = 0, trades = 0,
                         startTime = now, initialBalance = balance newState,
                         lastBalance = balance newState, tradeHistory = [],
                         balanceHistory = [\<lparr>balance_bh = balance newState, timestamp_bh = now\<rparr>]\<rparr>)
           \<and> updateWalletPnL address oldState newState now wp address = Some st'
           \<and> tradeHistory st'
                = slice_last 1000 (tradeHistory st0 @ before
                    @ [partialCloseRecord sy op np (position op - position np) now] @ after)
           \<and> (\<forall>t\<in>set (before @ after). symbol_tr t \<noteq> sy)
           \<and> realizedPnL st' = realizedPnL st0
                                 + unrealized_pnl op * ((position op - position np) / position op)
                                 + sum_list (map pnl (filter isClosing (before @ after)))
           \<and> trades st' = trades st0 + 1 + length (filter isClosing (before @ after)))"
proof -
  let ?r = "partialCloseRecord sy op np (position op - position np) now"
  have one: "stepTrades (positions oldState) (positions newState) now sy = [?r]"
    using o n lt by (rule stepTrades_partial)
  have cl: "isClosing ?r"
    "pnl ?r = unrealized_pnl op * ((position op - position np) / position op)"
    "type_tr ?r = T_partial_close" "size_tr ?r = position op - position np"
    by (simp_all add: isClosing_def partialCloseRecord_def)
  have nz: "position op \<noteq> 0" using lt pos by simp
  have body: "tradeStep (positions oldState) (positions newState) now sy st
           = st\<lparr>tradeHistory := tradeHistory st @ [?r],
                realizedPnL := realizedPnL st
                    + unrealized_pnl op * ((position op - position np) / position op),
                trades := trades st + 1\<rparr>"
    by (simp add: tradeStep_appends one cl)
  from update_contribution[OF one, of address wp] cl body nz show ?thesis
    by simp
qed

theorem partial_close_is_proportional_witness:
  "map_of (positions snapshotE10) ''ETH'' = Some ethPos10
   \<and> map_of (positions snapshotE6) ''ETH'' = Some ethPos6
   \<and> position ethPos6 < position ethPos10 \<and> 0 < position ethPos6
   \<and> size_tr (partialCloseRecord ''ETH'' ethPos10 ethPos6 (position ethPos10 - position ethPos6) 5) = 4
   \<and> pnl (partialCloseRecord ''ETH'' ethPos10 ethPos6 (position ethPos10 - position ethPos6) 5) = 40
   \<and> (\<exists>st'. updateWalletPnL ''0xA'' snapshotE10 snapshotE6 5 Map.empty ''0xA'' = Some st'
          \<and> map type_tr (tradeHistory st') = [T_partial_close]
          \<and> map size_tr (tradeHistory st') = [4]
          \<and> map pnl (tradeHistory st') = [40]
          \<and> realizedPnL st' = 40 \<and> trades st' = 1)
   \<and> realizedPnL storedState = 500 \<and> trades storedState = 3
   \<and> (\<exists>st'. updateWalletPnL ''0xA'' snapshotE10 snapshotE6 5 [''0xA'' \<mapsto> storedState] ''0xA''
                = Some st'
          \<and> tradeHistory st'
              = tradeHistory storedState
                @ [partialCloseRecord ''ETH'' ethPos10 ethPos6 (position ethPos10 - position ethPos6) 5]
          \<and> realizedPnL st' = 540 \<and> trades st' = 4)"
proof -
  have h1: "map_of (positions snapshotE10) ''ETH'' = Some ethPos10" by (simp add: snapshotE10_def)
  have h2: "map_of (positions snapshotE6) ''ETH'' = Some ethPos6" by (simp add: snapshotE6_def)
  have h3: "position ethPos6 < position ethPos10" by (simp add: ethPos6_def ethPos10_def)
  have h4: "0 < position ethPos6" by (simp add: ethPos6_def)
  have ev: "\<exists>st'. updateWalletPnL ''0xA'' snapshotE10 snapshotE6 5 Map.empty ''0xA'' = Some st'
          \<and> map type_tr (tradeHistory st') = [T_partial_close]
          \<and> map size_tr (tradeHistory st') = [4]
          \<and> map pnl (tradeHistory st') = [40]
          \<and> realizedPnL st' = 40 \<and> trades st' = 1"
    by (simp add: updateWalletPnL_def initializeWalletPnL_def tradeLoop_def allSymbols_def
          tradeStep_def finishUpdate_def slice_last_def snapshotE10_def snapshotE6_def Let_def
          partialCloseRecord_def ethPos10_def ethPos6_def)
  have sv: "realizedPnL storedState = 500 \<and> trades storedState = 3"
    by (simp add: storedState_def)
  have es: "\<exists>st'. updateWalletPnL ''0xA'' snapshotE10 snapshotE6 5 [''0xA'' \<mapsto> storedState] ''0xA''
                = Some st'
          \<and> tradeHistory st'
              = tradeHistory storedState
                @ [partialCloseRecord ''ETH'' ethPos10 ethPos6 (position ethPos10 - position ethPos6) 5]
          \<and> realizedPnL st' = 540 \<and> trades st' = 4"
    by (simp add: updateWalletPnL_def initializeWalletPnL_def tradeLoop_def allSymbols_def
          tradeStep_def finishUpdate_def slice_last_def snapshotE10_def snapshotE6_def Let_def
          partialCloseRecord_def ethPos10_def ethPos6_def storedState_def)
  from partial_close_is_proportional[OF h1 h2 h3 h4, where now=5 and st=freshState
      and address="''0xA''" and wp=Map.empty]
    partial_close_is_proportional[OF h1 h2 h3 h4, where now=5 and st=freshState
      and address="''0xA''" and wp="[''0xA'' \<mapsto> storedState]"] h1 h2 h3 h4 ev sv es
  show ?thesis by (simp add: ethPos10_def ethPos6_def)
qed

lemma fold_unrealized:
  "fold (\<lambda>p acc. acc + unrealized_pnl p) ps a = a + sum_list (map unrealized_pnl ps)"
  by (induction ps arbitrary: a) simp_all

lemma finishUpdate_totals:
  "totalPnL (finishUpdate newState now st)
     = realizedPnL st + sum_list (map (\<lambda>kv. unrealized_pnl (snd kv)) (positions newState))"
  "unrealizedPnL (finishUpdate newState now st)
     = sum_list (map (\<lambda>kv. unrealized_pnl (snd kv)) (positions newState))"
  by (simp_all add: finishUpdate_def Let_def fold_unrealized comp_def)

lemma tradeLoop_totalPnL_irrelevant:
  "finishUpdate newState now (tradeLoop oldState newState now (st\<lparr>totalPnL := x\<rparr>))
     = finishUpdate newState now (tradeLoop oldState newState now st)"
  unfolding tradeLoop_def
  by (subst fold_tradeStep, subst fold_tradeStep) (simp add: finishUpdate_def Let_def)

text \<open>
  Claim C7. After every update of the aggregator the state of the address satisfies
  \<open>totalPnL = realizedPnL + unrealizedPnL\<close>, with \<open>unrealizedPnL\<close> the sum over the new
  snapshot's positions; the result of an update does not depend on the \<open>totalPnL\<close> that was
  stored before it; and a state created by \<open>initializeWalletPnL\<close> satisfies the equation.
\<close>

theorem totalPnL_is_recomputed:
  "(\<exists>st'. updateWalletPnL address oldState newState now wp address = Some st'
        \<and> totalPnL st' = realizedPnL st' + unrealizedPnL st'
        \<and> unrealizedPnL st'
            = sum_list (map (\<lambda>kv. unrealized_pnl (snd kv)) (positions newState)))
   \<and> updateWalletPnL address oldState newState now (wp(address \<mapsto> st\<lparr>totalPnL := x\<rparr>)) address
       = updateWalletPnL address oldState newState now (wp(address \<mapsto> st)) address
   \<and> (wp address = None \<longrightarrow>
        (\<exists>st0. initializeWalletPnL address b now wp address = Some st0
            \<and> totalPnL st0 = realizedPnL st0 + unrealizedPnL st0))"
proof -
  obtain st0 where u: "updateWalletPnL address oldState newState now wp address
            = Some (finishUpdate newState now (tradeLoop oldState newState now st0))"
    using updateWalletPnL_at by blast
  have a: "\<exists>st'. updateWalletPnL address oldState newState now wp address = Some st'
        \<and> totalPnL st' = realizedPnL st' + unrealizedPnL st'
        \<and> unrealizedPnL st'
            = sum_list (map (\<lambda>kv. unrealized_pnl (snd kv)) (positions newState))"
    using u by (simp add: finishUpdate_totals finishUpdate_fields)
  have b: "updateWalletPnL address oldState newState now (wp(address \<mapsto> st\<lparr>totalPnL := x\<rparr>)) address
       = updateWalletPnL address oldState newState now (wp(address \<mapsto> st)) address"
    by (simp add: updateWalletPnL_def initializeWalletPnL_def tradeLoop_totalPnL_irrelevant)
  have c: "wp address = None \<longrightarrow>
        (\<exists>st0. initializeWalletPnL address b now wp address = Some st0
            \<and> totalPnL st0 = realizedPnL st0 + unrealizedPnL st0)"
    by (simp add: initializeWalletPnL_def)
  from a b c show ?thesis by blast
qed

theorem totalPnL_is_recomputed_witness:
  "(\<exists>st'. updateWalletPnL ''0xA'' snapshotE10 snapshotE6 5 Map.empty ''0xA'' = Some st'
        \<and> totalPnL st' = 100 \<and> realizedPnL st' = 40 \<and> unrealizedPnL st' = 60)
   \<and> updateWalletPnL ''0xA'' snapshotE10 snapshotE6 5 [''0xA'' \<mapsto> freshState\<lparr>totalPnL := 77\<rparr>] ''0xA''
       = updateWalletPnL ''0xA'' snapshotE10 snapshotE6 5 [''0xA'' \<mapsto> freshState] ''0xA''
   \<and> (Map.empty :: wallet_pnl) ''0xA'' = None
   \<and> (\<exists>st0. initializeWalletPnL ''0xA'' 1000 5 Map.empty ''0xA'' = Some st0
            \<and> totalPnL st0 = realizedPnL st0 + unrealizedPnL st0)"
proof -
  have ev: "\<exists>st'. updateWalletPnL ''0xA'' snapshotE10 snapshotE6 5 Map.empty ''0xA'' = Some st'
        \<and> totalPnL st' = 100 \<and> realizedPnL st' = 40 \<and> unrealizedPnL st' = 60"
    by (simp add: updateWalletPnL_def initializeWalletPnL_def tradeLoop_def allSymbols_def
          tradeStep_def finishUpdate_def slice_last_def snapshotE10_def snapshotE6_def Let_def
          partialCloseRecord_def ethPos10_def ethPos6_def)
  from totalPnL_is_recomputed[where address="''0xA''" and oldState=snapshotE10
      and newState=snapshotE6 and now=5 and wp=Map.empty and st=freshState and x=77 and b=1000] ev
  show ?thesis by simp
qed

subsection \<open>The rate gate\<close>

lemma getUserLimits_plain:
  "\<not> isWhitelisted wl uid \<Longrightarrow> rateLimit (getUserLimits cfg wl uid) = enat (RATE_LIMIT_PER_USER cfg)"
  by (simp add: getUserLimits_def)

lemma check_verdict:
  assumes "\<not> isWhitelisted wl uid"
  shows "fst (checkRateLimit cfg wl uid now rl)
           \<longleftrightarrow> length (filter (\<lambda>time. now - time < 60000) (windowOf rl uid)) < RATE_LIMIT_PER_USER cfg"
  using assms
  by (auto simp: checkRateLimit_def getUserLimits_plain windowOf_def Let_def split: option.splits)

lemma check_window_rejected:
  assumes "\<not> isWhitelisted wl uid" "\<not> fst (checkRateLimit cfg wl uid now rl)"
  shows "windowOf (snd (checkRateLimit cfg wl uid now rl)) uid
           = filter (\<lambda>time. now - time < 60000) (windowOf rl uid)"
  using assms
  by (auto simp: checkRateLimit_def getUserLimits_plain windowOf_def Let_def split: option.splits if_splits)

lemma check_window_admitted:
  assumes "\<not> isWhitelisted wl uid" "fst (checkRateLimit cfg wl uid now rl)"
  shows "windowOf (snd (checkRateLimit cfg wl uid now rl)) uid
           = filter (\<lambda>time. now - time < 60000) (windowOf rl uid) @ [now]"
  using assms
  by (auto simp: checkRateLimit_def getUserLimits_plain windowOf_def Let_def split: option.splits if_splits)

lemma check_cases:
  assumes nw: "\<not> isWhitelisted wl uid"
  obtains (admitted) "fst (checkRateLimit cfg wl uid now rl)"
      "length (filter (\<lambda>time. now - time < 60000) (windowOf rl uid)) < RATE_LIMIT_PER_USER cfg"
      "windowOf (snd (checkRateLimit cfg wl uid now rl)) uid
         = filter (\<lambda>time. now - time < 60000) (windowOf rl uid) @ [now]"
  | (rejected) "\<not> fst (checkRateLimit cfg wl uid now rl)"
      "RATE_LIMIT_PER_USER cfg \<le> length (filter (\<lambda>time. now - time < 60000) (windowOf rl uid))"
      "windowOf (snd (checkRateLimit cfg wl uid now rl)) uid
         = filter (\<lambda>time. now - time < 60000) (windowOf rl uid)"
  using check_verdict[OF nw, of cfg now rl] check_window_admitted[OF nw, of cfg now rl]
    check_window_rejected[OF nw, of cfg now rl]
  by (cases "fst (checkRateLimit cfg wl uid now rl)") auto

lemma callSequence_Cons:
  "fst (callSequence cfg wl uid (t # ts) rl)
     = fst (checkRateLimit cfg wl uid t rl)
       # fst (callSequence cfg wl uid ts (snd (checkRateLimit cfg wl uid t rl)))"
  by (simp add: split_beta Let_def)

lemma burst_general:
  assumes nw: "\<not> isWhitelisted wl uid"
      and inw: "\<forall>a\<in>set (windowOf rl uid) \<union> set ts. lo \<le> a \<and> a < lo + 60000"
  shows "fst (callSequence cfg wl uid ts rl)
           = replicate (min (length ts) (RATE_LIMIT_PER_USER cfg - length (windowOf rl uid))) True
             @ replicate (length ts - (RATE_LIMIT_PER_USER cfg - length (windowOf rl uid))) False"
  using inw
proof (induction ts arbitrary: rl)
  case Nil
  then show ?case by simp
next
  case (Cons t ts)
  let ?rl' = "snd (checkRateLimit cfg wl uid t rl)"
  let ?L = "RATE_LIMIT_PER_USER cfg"
  have keep: "filter (\<lambda>time. t - time < 60000) (windowOf rl uid) = windowOf rl uid"
  proof -
    have "t < lo + 60000" using Cons.prems by simp
    moreover have "\<forall>a\<in>set (windowOf rl uid). lo \<le> a" using Cons.prems by simp
    ultimately have "\<forall>a\<in>set (windowOf rl uid). t - a < 60000" by fastforce
    then show ?thesis by (rule filter_True)
  qed
  consider (admitted) "fst (checkRateLimit cfg wl uid t rl)"
      "length (filter (\<lambda>time. t - time < 60000) (windowOf rl uid)) < RATE_LIMIT_PER_USER cfg"
      "windowOf (snd (checkRateLimit cfg wl uid t rl)) uid
         = filter (\<lambda>time. t - time < 60000) (windowOf rl uid) @ [t]"
  | (rejected) "\<not> fst (checkRateLimit cfg wl uid t rl)"
      "RATE_LIMIT_PER_USER cfg \<le> length (filter (\<lambda>time. t - time < 60000) (windowOf rl uid))"
      "windowOf (snd (checkRateLimit cfg wl uid t rl)) uid
         = filter (\<lambda>time. t - time < 60000) (windowOf rl uid)"
    by (rule check_cases[OF nw, of cfg t rl])
  then show ?case
  proof cases
    case admitted
    then have w': "windowOf ?rl' uid = windowOf rl uid @ [t]" by (simp add: keep)
    have "\<forall>a\<in>set (windowOf ?rl' uid) \<union> set ts. lo \<le> a \<and> a < lo + 60000"
      using Cons.prems by (auto simp: w')
    from Cons.IH[OF this]
    have ih: "fst (callSequence cfg wl uid ts ?rl')
                = replicate (min (length ts) (?L - Suc (length (windowOf rl uid)))) True
                  @ replicate (length ts - (?L - Suc (length (windowOf rl uid)))) False"
      by (simp add: w')
    obtain k where k: "?L - length (windowOf rl uid) = Suc k"
      and k': "?L - Suc (length (windowOf rl uid)) = k"
      using admitted(2) by (auto simp: keep dest: less_imp_Suc_add)
    show ?thesis
      by (simp add: callSequence_Cons ih admitted(1) k k' del: callSequence.simps)
  next
    case rejected
    then have w': "windowOf ?rl' uid = windowOf rl uid" by (simp add: keep)
    have "\<forall>a\<in>set (windowOf ?rl' uid) \<union> set ts. lo \<le> a \<and> a < lo + 60000"
      using Cons.prems by (auto simp: w')
    from Cons.IH[OF this]
    have ih: "fst (callSequence cfg wl uid ts ?rl')
                = replicate (min (length ts) (?L - length (windowOf rl uid))) True
                  @ replicate (length ts - (?L - length (windowOf rl uid))) False"
      by (simp add: w')
    have z: "?L - length (windowOf rl uid) = 0" using rejected(2) by (simp add: keep)
    show ?thesis
      by (simp add: callSequence_Cons ih rejected(1) z del: callSequence.simps flip: replicate_Suc)
  qed
qed

lemma check_window:
  assumes nw: "\<not> isWhitelisted wl uid"
  shows "windowOf (snd (checkRateLimit cfg wl uid now rl)) uid
           = filter (\<lambda>time. now - time < 60000) (windowOf rl uid)
             @ (if fst (checkRateLimit cfg wl uid now rl) then [now] else [])"
  using check_window_admitted[OF nw, of cfg now rl] check_window_rejected[OF nw, of cfg now rl]
  by simp

lemma admittedTimes_Cons:
  "admittedTimes cfg wl uid (t # ts) rl
     = (if fst (checkRateLimit cfg wl uid t rl) then [t] else [])
       @ admittedTimes cfg wl uid ts (snd (checkRateLimit cfg wl uid t rl))"
  by (simp add: admittedTimes_def callSequence_Cons del: callSequence.simps)

lemma admittedTimes_subset: "set (admittedTimes cfg wl uid ts rl) \<subseteq> set ts"
  by (auto simp: admittedTimes_def dest: set_zip_leftD)

lemma window_filter:
  assumes "t \<le> x" "inWindow w x"
  shows "filter (inWindow w) (filter (\<lambda>a. t - a < 60000) R) = filter (inWindow w) R"
proof -
  have "\<And>a. inWindow w a \<Longrightarrow> t - a < 60000"
    using assms by (simp add: inWindow_def)
  then have "filter (\<lambda>a. t - a < 60000 \<and> inWindow w a) R = filter (inWindow w) R"
    by (intro filter_cong) auto
  then show ?thesis by simp
qed

lemma length_filter_filter_le:
  "length (filter P (filter Q xs)) \<le> length (filter P xs)"
  by (induction xs) auto

lemma rolling_general:
  assumes nw: "\<not> isWhitelisted wl uid"
      and srt: "sorted ts"
      and le: "\<forall>a\<in>set (windowOf rl uid). \<forall>t\<in>set ts. a \<le> t"
      and sp: "\<forall>w. length (filter (inWindow w) (windowOf rl uid)) \<le> RATE_LIMIT_PER_USER cfg"
  shows "length (filter (inWindow w) (windowOf rl uid @ admittedTimes cfg wl uid ts rl))
           \<le> RATE_LIMIT_PER_USER cfg"
  using srt le sp
proof (induction ts arbitrary: rl w)
  case Nil
  then show ?case by (simp add: admittedTimes_def)
next
  case (Cons t ts)
  let ?L = "RATE_LIMIT_PER_USER cfg"
  let ?R = "windowOf rl uid"
  let ?reqs = "filter (\<lambda>a. t - a < 60000) ?R"
  let ?b = "fst (checkRateLimit cfg wl uid t rl)"
  let ?new = "if ?b then [t] else []"
  let ?rl' = "snd (checkRateLimit cfg wl uid t rl)"
  let ?adm = "admittedTimes cfg wl uid ts ?rl'"
  have w': "windowOf ?rl' uid = ?reqs @ ?new" by (rule check_window[OF nw])
  have verdict: "?b \<longleftrightarrow> length ?reqs < ?L" by (rule check_verdict[OF nw])
  have p1: "sorted ts" using Cons.prems(1) by simp
  have p2: "\<forall>a\<in>set (windowOf ?rl' uid). \<forall>x\<in>set ts. a \<le> x"
    using Cons.prems(1,2) by (auto simp: w')
  have p3: "\<forall>v. length (filter (inWindow v) (windowOf ?rl' uid)) \<le> ?L"
  proof
    fix v
    have a: "length (filter (inWindow v) ?reqs) \<le> length (filter (inWindow v) ?R)"
      by (rule length_filter_filter_le)
    have b: "length (filter (inWindow v) ?reqs) \<le> length ?reqs" by (rule length_filter_le)
    show "length (filter (inWindow v) (windowOf ?rl' uid)) \<le> ?L"
      using a b verdict Cons.prems(3)[rule_format, of v] by (auto simp: w')
  qed
  have ih: "length (filter (inWindow w) ((?reqs @ ?new) @ ?adm)) \<le> ?L"
    using Cons.IH[OF p1 p2 p3, of w] by (simp only: w')
  have ge: "\<forall>x\<in>set (?new @ ?adm). t \<le> x"
    using Cons.prems(1) admittedTimes_subset[of cfg wl uid ts ?rl'] by auto
  have goal: "length (filter (inWindow w) (?R @ ?new @ ?adm)) \<le> ?L"
  proof (cases "\<exists>x\<in>set (?new @ ?adm). inWindow w x")
    case True
    then obtain x where x: "x \<in> set (?new @ ?adm)" "inWindow w x" by blast
    with ge have "t \<le> x" by blast
    from window_filter[OF this x(2)] have "filter (inWindow w) ?reqs = filter (inWindow w) ?R" .
    with ih show ?thesis by simp
  next
    case False
    then have "filter (inWindow w) (?new @ ?adm) = []"
      by (simp only: filter_empty_conv) blast
    then have "filter (inWindow w) (?R @ ?new @ ?adm) = filter (inWindow w) ?R"
      by (simp only: filter_append append_Nil2)
    with Cons.prems(3) show ?thesis by simp
  qed
  show ?case
    by (simp only: admittedTimes_Cons) (rule goal)
qed

lemma check_frame:
  "other \<noteq> userId \<Longrightarrow> snd (checkRateLimit cfg wl other t rl) userId = rl userId"
  by (simp add: checkRateLimit_def Let_def split: option.splits)

lemma check_local:
  assumes "rl1 uid = rl uid"
  shows "fst (checkRateLimit cfg wl uid t rl1) = fst (checkRateLimit cfg wl uid t rl)"
    and "snd (checkRateLimit cfg wl uid t rl1) uid = snd (checkRateLimit cfg wl uid t rl) uid"
  using assms by (simp_all add: checkRateLimit_def Let_def split: option.splits)

lemma callSequence_local:
  "rl1 uid = rl uid
     \<Longrightarrow> fst (callSequence cfg wl uid ts rl1) = fst (callSequence cfg wl uid ts rl)"
proof (induction ts arbitrary: rl1 rl)
  case Nil
  then show ?case by simp
next
  case (Cons t ts)
  from Cons.prems check_local[where ?rl1.0=rl1 and rl=rl and uid=uid and cfg=cfg and wl=wl and t=t]
  have v: "fst (checkRateLimit cfg wl uid t rl1) = fst (checkRateLimit cfg wl uid t rl)"
    and s: "snd (checkRateLimit cfg wl uid t rl1) uid = snd (checkRateLimit cfg wl uid t rl) uid"
    by simp_all
  from s have "fst (callSequence cfg wl uid ts (snd (checkRateLimit cfg wl uid t rl1)))
                 = fst (callSequence cfg wl uid ts (snd (checkRateLimit cfg wl uid t rl)))"
    by (rule Cons.IH)
  with v show ?case
    by (simp add: callSequence_Cons del: callSequence.simps)
qed

lemma gateRun_Cons:
  "fst (gateRun cfg wl ((u, t) # calls) rl)
     = (u, t, fst (checkRateLimit cfg wl u t rl))
       # fst (gateRun cfg wl calls (snd (checkRateLimit cfg wl u t rl)))"
  by (simp add: split_beta Let_def)

lemma gateRun_projection:
  "entriesOf uid (fst (gateRun cfg wl calls rl))
     = zip (callsOf uid calls) (fst (callSequence cfg wl uid (callsOf uid calls) rl))"
proof (induction calls arbitrary: rl)
  case Nil
  then show ?case by (simp add: entriesOf_def callsOf_def)
next
  case (Cons c calls)
  obtain u t where c: "c = (u, t)" by (cases c)
  let ?rl1 = "snd (checkRateLimit cfg wl u t rl)"
  show ?case
  proof (cases "u = uid")
    case True
    have co: "callsOf uid (c # calls) = t # callsOf uid calls"
      by (simp add: callsOf_def c True)
    have "entriesOf uid (fst (gateRun cfg wl (c # calls) rl))
            = (t, fst (checkRateLimit cfg wl uid t rl))
              # entriesOf uid (fst (gateRun cfg wl calls ?rl1))"
      by (simp add: c True gateRun_Cons entriesOf_def del: gateRun.simps)
    also have "entriesOf uid (fst (gateRun cfg wl calls ?rl1))
                 = zip (callsOf uid calls) (fst (callSequence cfg wl uid (callsOf uid calls) ?rl1))"
      by (rule Cons.IH)
    finally show ?thesis
      by (simp add: co True callSequence_Cons del: callSequence.simps)
  next
    case False
    have co: "callsOf uid (c # calls) = callsOf uid calls"
      by (simp add: callsOf_def c False)
    have fr: "?rl1 uid = rl uid" by (rule check_frame[OF False])
    have "entriesOf uid (fst (gateRun cfg wl (c # calls) rl))
            = entriesOf uid (fst (gateRun cfg wl calls ?rl1))"
      by (simp add: c False gateRun_Cons entriesOf_def del: gateRun.simps)
    also have "\<dots> = zip (callsOf uid calls) (fst (callSequence cfg wl uid (callsOf uid calls) ?rl1))"
      by (rule Cons.IH)
    also have "fst (callSequence cfg wl uid (callsOf uid calls) ?rl1)
                 = fst (callSequence cfg wl uid (callsOf uid calls) rl)"
      using fr by (rule callSequence_local)
    finally show ?thesis by (simp only: co)
  qed
qed

lemma length_callSequence: "length (fst (callSequence cfg wl uid ts rl)) = length ts"
  by (induction ts arbitrary: rl) (simp_all add: split_beta Let_def)

lemma admitted_of_trace:
  "map fst (filter snd (entriesOf uid (fst (gateRun cfg wl calls rl))))
     = admittedTimes cfg wl uid (callsOf uid calls) rl"
  by (simp only: gateRun_projection admittedTimes_def)

lemma verdicts_of_trace:
  "map snd (entriesOf uid (fst (gateRun cfg wl calls rl)))
     = fst (callSequence cfg wl uid (callsOf uid calls) rl)"
  by (simp add: gateRun_projection length_callSequence)

lemma sorted_callsOf: "sorted (map snd calls) \<Longrightarrow> sorted (callsOf uid calls)"
  unfolding callsOf_def by (rule sorted_filter)

text \<open>
  Claim C9. For a caller that is not whitelisted, with limit \<open>L = RATE_LIMIT_PER_USER\<close>:
  a call is admitted exactly when fewer than \<open>L\<close> stored timestamps are younger than 60
  seconds; the stored window after the call is the filtered window, with the call's time
  added only when it was admitted (a rejected call adds nothing); of the calls a new caller
  makes within one 60-second interval the first \<open>L\<close> are admitted and every later one is
  rejected; over any run of calls at non-decreasing times, no 60-second interval holds more
  than \<open>L\<close> admitted calls; and once every stored timestamp is at least 60 seconds old the
  window is empty, the call is admitted and the window restarts with that call alone.
  The gate being shared, the statement also covers the other users: a call of another user
  leaves the caller's entry of the map as it was; in a run of calls of all users the
  verdicts the caller gets are those it would get alone; so there too the first \<open>L\<close> of the
  caller's calls inside a 60-second interval are admitted and the later ones rejected, and
  no 60-second interval holds more than \<open>L\<close> of the caller's admitted calls.
\<close>

theorem rate_gate_sliding_window:
  assumes nw: "\<not> isWhitelisted whitelist userId"
  shows "(fst (checkRateLimit cfg whitelist userId now rl)
            \<longleftrightarrow> length (filter (\<lambda>time. now - time < 60000) (windowOf rl userId))
                  < RATE_LIMIT_PER_USER cfg)
       \<and> windowOf (snd (checkRateLimit cfg whitelist userId now rl)) userId
           = filter (\<lambda>time. now - time < 60000) (windowOf rl userId)
             @ (if fst (checkRateLimit cfg whitelist userId now rl) then [now] else [])
       \<and> (rl userId = None \<and> (\<forall>t\<in>set ts. lo \<le> t \<and> t < lo + 60000) \<longrightarrow>
            fst (callSequence cfg whitelist userId ts rl)
              = replicate (min (length ts) (RATE_LIMIT_PER_USER cfg)) True
                @ replicate (length ts - RATE_LIMIT_PER_USER cfg) False)
       \<and> (rl userId = None \<and> sorted ts \<longrightarrow>
            (\<forall>w. length (filter (inWindow w) (admittedTimes cfg whitelist userId ts rl))
                   \<le> RATE_LIMIT_PER_USER cfg))
       \<and> ((\<forall>a\<in>set (windowOf rl userId). 60000 \<le> now - a) \<and> 0 < RATE_LIMIT_PER_USER cfg \<longrightarrow>
            fst (checkRateLimit cfg whitelist userId now rl)
            \<and> windowOf (snd (checkRateLimit cfg whitelist userId now rl)) userId = [now])
       \<and> (other \<noteq> userId \<longrightarrow>
            snd (checkRateLimit cfg whitelist other t rl) userId = rl userId)
       \<and> map snd (entriesOf userId (fst (gateRun cfg whitelist calls rl)))
           = fst (callSequence cfg whitelist userId (callsOf userId calls) rl)
       \<and> (rl userId = None
            \<and> (\<forall>c\<in>set calls. fst c = userId \<longrightarrow> lo \<le> snd c \<and> snd c < lo + 60000) \<longrightarrow>
            map snd (entriesOf userId (fst (gateRun cfg whitelist calls rl)))
              = replicate (min (length (callsOf userId calls)) (RATE_LIMIT_PER_USER cfg)) True
                @ replicate (length (callsOf userId calls) - RATE_LIMIT_PER_USER cfg) False)
       \<and> (rl userId = None \<and> sorted (map snd calls) \<longrightarrow>
            (\<forall>w. length (filter (inWindow w)
                     (map fst (filter snd (entriesOf userId (fst (gateRun cfg whitelist calls rl))))))
                   \<le> RATE_LIMIT_PER_USER cfg))"
proof -
  let ?L = "RATE_LIMIT_PER_USER cfg"
  have verdict: "fst (checkRateLimit cfg whitelist userId now rl)
            \<longleftrightarrow> length (filter (\<lambda>time. now - time < 60000) (windowOf rl userId)) < ?L"
    by (rule check_verdict[OF nw])
  have win: "windowOf (snd (checkRateLimit cfg whitelist userId now rl)) userId
           = filter (\<lambda>time. now - time < 60000) (windowOf rl userId)
             @ (if fst (checkRateLimit cfg whitelist userId now rl) then [now] else [])"
    by (rule check_window[OF nw])
  have burst: "rl userId = None \<and> (\<forall>t\<in>set ts. lo \<le> t \<and> t < lo + 60000) \<longrightarrow>
            fst (callSequence cfg whitelist userId ts rl)
              = replicate (min (length ts) ?L) True @ replicate (length ts - ?L) False"
  proof
    assume a: "rl userId = None \<and> (\<forall>t\<in>set ts. lo \<le> t \<and> t < lo + 60000)"
    then have e: "windowOf rl userId = []" by (simp add: windowOf_def)
    with a have "\<forall>a\<in>set (windowOf rl userId) \<union> set ts. lo \<le> a \<and> a < lo + 60000" by simp
    from burst_general[OF nw this, of cfg] show "fst (callSequence cfg whitelist userId ts rl)
              = replicate (min (length ts) ?L) True @ replicate (length ts - ?L) False"
      by (simp add: e)
  qed
  have rolling: "rl userId = None \<and> sorted ts \<longrightarrow>
            (\<forall>w. length (filter (inWindow w) (admittedTimes cfg whitelist userId ts rl)) \<le> ?L)"
  proof (intro impI allI)
    fix w
    assume a: "rl userId = None \<and> sorted ts"
    then have e: "windowOf rl userId = []" by (simp add: windowOf_def)
    have "length (filter (inWindow w) (windowOf rl userId @ admittedTimes cfg whitelist userId ts rl))
            \<le> ?L"
      using rolling_general[OF nw, of ts rl cfg w] a e by simp
    then show "length (filter (inWindow w) (admittedTimes cfg whitelist userId ts rl)) \<le> ?L"
      by (simp add: e)
  qed
  have idle: "(\<forall>a\<in>set (windowOf rl userId). 60000 \<le> now - a) \<and> 0 < ?L \<longrightarrow>
            fst (checkRateLimit cfg whitelist userId now rl)
            \<and> windowOf (snd (checkRateLimit cfg whitelist userId now rl)) userId = [now]"
  proof
    assume a: "(\<forall>a\<in>set (windowOf rl userId). 60000 \<le> now - a) \<and> 0 < ?L"
    then have "\<forall>a\<in>set (windowOf rl userId). \<not> now - a < 60000" by auto
    then have e: "filter (\<lambda>time. now - time < 60000) (windowOf rl userId) = []"
      by (simp only: filter_empty_conv)
    from a verdict e have ok: "fst (checkRateLimit cfg whitelist userId now rl)" by simp
    with win e show "fst (checkRateLimit cfg whitelist userId now rl)
            \<and> windowOf (snd (checkRateLimit cfg whitelist userId now rl)) userId = [now]"
      by simp
  qed
  have frame: "other \<noteq> userId \<longrightarrow>
            snd (checkRateLimit cfg whitelist other t rl) userId = rl userId"
    by (simp add: check_frame)
  have alone: "map snd (entriesOf userId (fst (gateRun cfg whitelist calls rl)))
           = fst (callSequence cfg whitelist userId (callsOf userId calls) rl)"
    by (rule verdicts_of_trace)
  have sburst: "rl userId = None
            \<and> (\<forall>c\<in>set calls. fst c = userId \<longrightarrow> lo \<le> snd c \<and> snd c < lo + 60000) \<longrightarrow>
            map snd (entriesOf userId (fst (gateRun cfg whitelist calls rl)))
              = replicate (min (length (callsOf userId calls)) ?L) True
                @ replicate (length (callsOf userId calls) - ?L) False"
  proof
    assume a: "rl userId = None
            \<and> (\<forall>c\<in>set calls. fst c = userId \<longrightarrow> lo \<le> snd c \<and> snd c < lo + 60000)"
    then have e: "windowOf rl userId = []" by (simp add: windowOf_def)
    from a have "\<forall>x\<in>set (callsOf userId calls). lo \<le> x \<and> x < lo + 60000"
      by (auto simp: callsOf_def)
    with e have "\<forall>x\<in>set (windowOf rl userId) \<union> set (callsOf userId calls).
                   lo \<le> x \<and> x < lo + 60000"
      by simp
    from burst_general[OF nw this, of cfg]
    show "map snd (entriesOf userId (fst (gateRun cfg whitelist calls rl)))
              = replicate (min (length (callsOf userId calls)) ?L) True
                @ replicate (length (callsOf userId calls) - ?L) False"
      by (simp add: e alone)
  qed
  have srolling: "rl userId = None \<and> sorted (map snd calls) \<longrightarrow>
            (\<forall>w. length (filter (inWindow w)
                     (map fst (filter snd (entriesOf userId (fst (gateRun cfg whitelist calls rl))))))
                   \<le> ?L)"
  proof (intro impI allI)
    fix w
    assume a: "rl userId = None \<and> sorted (map snd calls)"
    then have e: "windowOf rl userId = []" by (simp add: windowOf_def)
    from a have s: "sorted (callsOf userId calls)" by (simp add: sorted_callsOf)
    have "length (filter (inWindow w)
            (windowOf rl userId @ admittedTimes cfg whitelist userId (callsOf userId calls) rl))
            \<le> ?L"
      using rolling_general[OF nw, of "callsOf userId calls" rl cfg w] s e by simp
    then show "length (filter (inWindow w)
                 (map fst (filter snd (entriesOf userId (fst (gateRun cfg whitelist calls rl))))))
               \<le> ?L"
      by (simp add: e admitted_of_trace)
  qed
  from verdict win burst rolling idle frame alone sburst srolling show ?thesis by blast
qed

theorem rate_gate_sliding_window_witness:
  "\<not> isWhitelisted [] 7
   \<and> fst (callSequence CONFIG [] 7 (map (\<lambda>i. 1000 * int i) [0..<31]) Map.empty)
       = replicate 30 True @ [False]
   \<and> (\<forall>w. length (filter (inWindow w)
              (admittedTimes CONFIG [] 7 (map (\<lambda>i. 1000 * int i) [0..<31]) Map.empty)) \<le> 30)
   \<and> fst (checkRateLimit CONFIG [] 7 100000 [7 \<mapsto> \<lparr>requests = [0, 1000], blocked = True\<rparr>])
   \<and> windowOf (snd (checkRateLimit CONFIG [] 7 100000
                       [7 \<mapsto> \<lparr>requests = [0, 1000], blocked = True\<rparr>])) 7 = [100000]
   \<and> windowOf (snd (checkRateLimit CONFIG [] 8 29500
                       [7 \<mapsto> \<lparr>requests = [0, 1000], blocked = True\<rparr>])) 7 = [0, 1000]
   \<and> callsOf 7 sharedCalls = map (\<lambda>i. 1000 * int i) [0..<31]
   \<and> callsOf 8 sharedCalls = [29500]
   \<and> map snd (entriesOf 7 (fst (gateRun CONFIG [] sharedCalls Map.empty)))
       = replicate 30 True @ [False]
   \<and> (\<forall>w. length (filter (inWindow w)
              (map fst (filter snd (entriesOf 7 (fst (gateRun CONFIG [] sharedCalls Map.empty))))))
            \<le> 30)"
proof -
  have nw: "\<not> isWhitelisted [] 7" by (simp add: isWhitelisted_def)
  let ?ts = "map (\<lambda>i. 1000 * int i) [0..<31]"
  have h1: "(Map.empty :: rate_limits) 7 = None \<and> (\<forall>t\<in>set ?ts. 0 \<le> t \<and> t < 0 + 60000)"
    by auto
  have h2: "(Map.empty :: rate_limits) 7 = None \<and> sorted ?ts"
    by (simp add: sorted_map sorted_wrt_iff_nth_less)
  let ?rl = "[7 \<mapsto> \<lparr>requests = [0, 1000], blocked = True\<rparr>] :: rate_limits"
  have h3: "(\<forall>a\<in>set (windowOf ?rl 7). 60000 \<le> 100000 - a) \<and> 0 < RATE_LIMIT_PER_USER CONFIG"
    by (simp add: windowOf_def CONFIG_def)
  have L: "RATE_LIMIT_PER_USER CONFIG = 30" by (simp add: CONFIG_def)
  have len: "length ?ts = 31" by simp
  have u: "[0..<31] = [0..<30] @ [30::nat]" using upt_Suc_append[of 0 30] by simp
  have c7: "callsOf 7 sharedCalls = ?ts"
    by (simp only: u) (simp add: callsOf_def sharedCalls_def comp_def)
  have c8: "callsOf 8 sharedCalls = [29500]" by (simp add: callsOf_def sharedCalls_def)
  have h4: "(Map.empty :: rate_limits) 7 = None
            \<and> (\<forall>c\<in>set sharedCalls. fst c = 7 \<longrightarrow> 0 \<le> snd c \<and> snd c < 0 + 60000)"
    by (auto simp: sharedCalls_def)
  have m: "map snd sharedCalls = map (\<lambda>i. 1000 * int i) [0..<30] @ [29500, 30000]"
    by (simp add: sharedCalls_def comp_def)
  have s1: "sorted (map (\<lambda>i. 1000 * int i) [0..<30])"
    by (simp add: sorted_map sorted_wrt_iff_nth_less)
  have s2: "sorted (map (\<lambda>i. 1000 * int i) [0..<30] @ [29500, 30000])"
    unfolding sorted_append using s1 by auto
  have h5: "(Map.empty :: rate_limits) 7 = None \<and> sorted (map snd sharedCalls)"
    using s2 by (simp add: m)
  have len7: "length (callsOf 7 sharedCalls) = 31" by (simp only: c7 len)
  note run = rate_gate_sliding_window[OF nw, where cfg=CONFIG and rl=Map.empty and ts="?ts"
      and lo=0 and now=0 and calls=sharedCalls and other=8 and t=0]
  from run h1
  have "fst (callSequence CONFIG [] 7 ?ts Map.empty)
          = replicate (min (length ?ts) (RATE_LIMIT_PER_USER CONFIG)) True
            @ replicate (length ?ts - RATE_LIMIT_PER_USER CONFIG) False"
    by blast
  then have a: "fst (callSequence CONFIG [] 7 ?ts Map.empty) = replicate 30 True @ [False]"
    by (simp only: L len) simp
  from run h2
  have "\<forall>w. length (filter (inWindow w) (admittedTimes CONFIG [] 7 ?ts Map.empty))
              \<le> RATE_LIMIT_PER_USER CONFIG"
    by blast
  then have b: "\<forall>w. length (filter (inWindow w) (admittedTimes CONFIG [] 7 ?ts Map.empty)) \<le> 30"
    by (simp add: L)
  from run h4
  have "map snd (entriesOf 7 (fst (gateRun CONFIG [] sharedCalls Map.empty)))
          = replicate (min (length (callsOf 7 sharedCalls)) (RATE_LIMIT_PER_USER CONFIG)) True
            @ replicate (length (callsOf 7 sharedCalls) - RATE_LIMIT_PER_USER CONFIG) False"
    by blast
  then have d: "map snd (entriesOf 7 (fst (gateRun CONFIG [] sharedCalls Map.empty)))
              = replicate 30 True @ [False]"
    by (simp only: L len7) simp
  from run h5
  have "\<forall>w. length (filter (inWindow w)
              (map fst (filter snd (entriesOf 7 (fst (gateRun CONFIG [] sharedCalls Map.empty))))))
            \<le> RATE_LIMIT_PER_USER CONFIG"
    by blast
  then have e: "\<forall>w. length (filter (inWindow w)
              (map fst (filter snd (entriesOf 7 (fst (gateRun CONFIG [] sharedCalls Map.empty))))))
            \<le> 30"
    by (simp add: L)
  note idle = rate_gate_sliding_window[OF nw, where cfg=CONFIG and rl="?rl" and now=100000
      and ts="[]" and lo=0 and calls="[]" and other=8 and t=29500]
  from idle h3
  have c: "fst (checkRateLimit CONFIG [] 7 100000 ?rl)
           \<and> windowOf (snd (checkRateLimit CONFIG [] 7 100000 ?rl)) 7 = [100000]"
    by blast
  have ne: "(8::int) \<noteq> 7" by simp
  from idle ne
  have f: "snd (checkRateLimit CONFIG [] 8 29500 ?rl) 7 = ?rl 7"
    by blast
  from f have g: "windowOf (snd (checkRateLimit CONFIG [] 8 29500 ?rl)) 7 = [0, 1000]"
    by (simp add: windowOf_def)
  from nw a b c g c7 c8 d e show ?thesis by blast
qed

subsection \<open>The drawdown of a zero peak\<close>

lemma drawdownStep_zero_peak:
  assumes "peak v = 0" "totalValue stats r \<le> 0"
  shows "peak (drawdownStep stats r v) = 0"
    and "totalValue stats r < 0 \<Longrightarrow> maxDrawdown v = Num 0 \<or> maxDrawdown v = PosInf
           \<Longrightarrow> maxDrawdown (drawdownStep stats r v) = PosInf"
    and "totalValue stats r = 0 \<Longrightarrow> maxDrawdown (drawdownStep stats r v) = maxDrawdown v"
  using assms by (auto simp: drawdownStep_def Let_def js_div_def)

lemma drawdown_fold_zero_peak:
  assumes "peak v = 0" "\<forall>r\<in>set rs. totalValue stats r \<le> 0"
      and "maxDrawdown v = Num 0 \<or> maxDrawdown v = PosInf"
  shows "peak (fold (drawdownStep stats) rs v) = 0
       \<and> maxDrawdown (fold (drawdownStep stats) rs v)
           = (if maxDrawdown v = PosInf \<or> (\<exists>r\<in>set rs. totalValue stats r < 0)
              then PosInf else Num 0)"
  using assms
proof (induction rs arbitrary: v)
  case Nil
  then show ?case by auto
next
  case (Cons r rs)
  have le: "totalValue stats r \<le> 0" using Cons.prems(2) by simp
  have p: "peak (drawdownStep stats r v) = 0"
    by (rule drawdownStep_zero_peak(1)[OF Cons.prems(1) le])
  have rest: "\<forall>r\<in>set rs. totalValue stats r \<le> 0" using Cons.prems(2) by simp
  show ?case
  proof (cases "totalValue stats r < 0")
    case True
    have m: "maxDrawdown (drawdownStep stats r v) = PosInf"
      by (rule drawdownStep_zero_peak(2)[OF Cons.prems(1) le True Cons.prems(3)])
    from Cons.IH[OF p rest] m True show ?thesis by simp
  next
    case False
    with le have z: "totalValue stats r = 0" by simp
    have m: "maxDrawdown (drawdownStep stats r v) = maxDrawdown v"
      by (rule drawdownStep_zero_peak(3)[OF Cons.prems(1) le z])
    from Cons.IH[OF p rest] m Cons.prems(3) z show ?thesis by simp
  qed
qed

text \<open>
  Claim C10. The drawdown loop divides \<open>peak - totalValue\<close> by the running peak with no
  guard for a zero peak. For every P&L state with \<open>initialBalance = 0\<close> whose effective
  equity is never above 0 and is negative for some balance record, the peak stays 0, the
  division yields \<^verbatim>\<open>Infinity\<close>, and the reported \<open>maxDrawdown\<close> is that non-finite value.
  The witness is a state reached by two updates: one against a snapshot of balance 0, one
  against a snapshot of negative balance.
\<close>

theorem zero_peak_drawdown_is_infinite:
  assumes init: "initialBalance stats = 0"
      and le: "\<forall>r\<in>set (balanceHistory stats). totalValue stats r \<le> 0"
      and neg: "\<exists>r\<in>set (balanceHistory stats). totalValue stats r < 0"
      and at: "wp address = Some stats"
  shows "maxDrawdownOf stats = PosInf
       \<and> \<not> is_finite (maxDrawdownOf stats)
       \<and> (\<exists>s. getWalletPnLStats wp address = Some s \<and> maxDrawdown_s s = PosInf)"
proof -
  let ?v = "\<lparr>maxDrawdown = Num 0, peak = initialBalance stats, currentDrawdown = Num 0\<rparr>"
  have "maxDrawdown (fold (drawdownStep stats) (balanceHistory stats) ?v) = PosInf"
    using drawdown_fold_zero_peak[of ?v "balanceHistory stats" stats] init le neg by simp
  then have m: "maxDrawdownOf stats = PosInf" by (simp add: maxDrawdownOf_def)
  then show ?thesis using at by (simp add: getWalletPnLStats_def)
qed

theorem zero_peak_drawdown_is_infinite_witness:
  "updateWalletPnL ''0xA'' snapshotFailed snapshotNegative 6
     (updateWalletPnL ''0xA'' snapshotA snapshotFailed 5 Map.empty) ''0xA'' = Some drawdownState
   \<and> initialBalance drawdownState = 0
   \<and> map (totalValue drawdownState) (balanceHistory drawdownState) = [0, 0, - 50]
   \<and> maxDrawdownOf drawdownState = PosInf
   \<and> (\<exists>s. getWalletPnLStats [''0xA'' \<mapsto> drawdownState] ''0xA'' = Some s
          \<and> maxDrawdown_s s = PosInf)"
proof -
  have reach: "updateWalletPnL ''0xA'' snapshotFailed snapshotNegative 6
     (updateWalletPnL ''0xA'' snapshotA snapshotFailed 5 Map.empty) ''0xA'' = Some drawdownState"
    by (simp add: updateWalletPnL_def initializeWalletPnL_def tradeLoop_def allSymbols_def
          tradeStep_def finishUpdate_def slice_last_def snapshotA_def snapshotFailed_def
          snapshotNegative_def drawdownState_def Let_def ethPos10_def btcPos_def
          closeRecord_def openRecord_def)
  have h1: "initialBalance drawdownState = 0" by (simp add: drawdownState_def)
  have tv: "map (totalValue drawdownState) (balanceHistory drawdownState) = [0, 0, - 50]"
    by (simp add: drawdownState_def totalValue_def closeRecord_def openRecord_def)
  have h2: "\<forall>r\<in>set (balanceHistory drawdownState). totalValue drawdownState r \<le> 0"
  proof -
    have "\<forall>x\<in>set (map (totalValue drawdownState) (balanceHistory drawdownState)). x \<le> 0"
      by (simp only: tv) simp
    then show ?thesis by simp
  qed
  have h3: "\<exists>r\<in>set (balanceHistory drawdownState). totalValue drawdownState r < 0"
  proof -
    have "\<exists>x\<in>set (map (totalValue drawdownState) (balanceHistory drawdownState)). x < 0"
      by (simp only: tv) simp
    then show ?thesis by simp
  qed
  have h4: "[''0xA'' \<mapsto> drawdownState] ''0xA'' = Some drawdownState" by simp
  from zero_peak_drawdown_is_infinite[where wp="[''0xA'' \<mapsto> drawdownState]"
      and address="''0xA''", OF h1 h2 h3 h4] reach h1 tv
  show ?thesis by blast
qed

subsection \<open>The order of the diff\<close>

lemma remdups_append_filter:
  "remdups (xs @ ys) = remdups (filter (\<lambda>x. x \<notin> set ys) xs) @ remdups ys"
  by (induction xs) auto

lemma allSymbols_distinct_keys:
  assumes "distinct (map fst old)" "distinct (map fst new)"
  shows "allSymbols old new
           = map fst old @ filter (\<lambda>s. s \<notin> set (map fst old)) (map fst new)"
proof -
  have "remdups (rev (map fst new) @ rev (map fst old))
          = remdups (filter (\<lambda>s. s \<notin> set (rev (map fst old))) (rev (map fst new)))
            @ remdups (rev (map fst old))"
    by (rule remdups_append_filter)
  also have "remdups (rev (map fst old)) = rev (map fst old)"
    using assms(1) by (simp add: distinct_remdups_id)
  also have "remdups (filter (\<lambda>s. s \<notin> set (rev (map fst old))) (rev (map fst new)))
               = filter (\<lambda>s. s \<notin> set (map fst old)) (rev (map fst new))"
    using assms(2) by (simp add: distinct_remdups_id)
  finally show ?thesis
    by (simp add: allSymbols_def rev_filter)
qed

lemma compareSymbol_symbol: "m \<in> set (compareSymbol old new s) \<Longrightarrow> msg_symbol m = s"
  by (auto simp: compareSymbol_def formatPositionUpdate_def Let_def split: option.splits if_splits)

lemma compareSymbol_length: "length (compareSymbol old new s) \<le> 1"
  by (simp add: compareSymbol_def Let_def split: option.splits)

lemma compareSymbol_symbols:
  "map msg_symbol (compareSymbol old new s) = (if compareSymbol old new s \<noteq> [] then [s] else [])"
proof (cases "compareSymbol old new s")
  case Nil
  then show ?thesis by simp
next
  case (Cons m ms)
  with compareSymbol_length[of old new s] have ms: "ms = []" by simp
  from Cons compareSymbol_symbol[of m old new s] have "msg_symbol m = s" by simp
  with Cons ms show ?thesis by simp
qed

lemma symbols_of_concat:
  "map msg_symbol (concat (map (compareSymbol old new) syms))
     = filter (\<lambda>s. compareSymbol old new s \<noteq> []) syms"
  by (induction syms) (simp_all add: compareSymbol_symbols)

lemma compareSymbol_opened:
  assumes "s \<notin> set (map fst old)" "s \<in> set (map fst new)"
  shows "compareSymbol old new s \<noteq> []"
proof -
  from assms(1) have o: "map_of old s = None" by (simp add: map_of_eq_None_iff)
  from assms(2) obtain n where n: "map_of new s = Some n"
    by (metis map_of_eq_None_iff not_None_eq set_map)
  from o n show ?thesis by (simp add: compareSymbol_def)
qed

text \<open>
  Claim C4, as amended. The diff is a function of the two snapshots, and it returns its
  messages in the key order of the position maps, not sorted by symbol name: first the
  symbols of the old snapshot that were closed or changed, in the old map's key order,
  then the symbols found only in the new snapshot, in the new map's key order (the keys of
  an object being distinct).
\<close>

theorem diff_follows_key_order:
  assumes "distinct (map fst (positions oldPos))" "distinct (map fst (positions newPos))"
  shows "map msg_symbol (comparePositions oldPos newPos)
           = filter (\<lambda>s. compareSymbol (positions oldPos) (positions newPos) s \<noteq> [])
                    (map fst (positions oldPos))
             @ filter (\<lambda>s. s \<notin> set (map fst (positions oldPos))) (map fst (positions newPos))"
proof -
  let ?f = "\<lambda>s. compareSymbol (positions oldPos) (positions newPos) s \<noteq> []"
  let ?new = "filter (\<lambda>s. s \<notin> set (map fst (positions oldPos))) (map fst (positions newPos))"
  have "\<forall>s\<in>set ?new. ?f s"
    using compareSymbol_opened[of _ "positions oldPos" "positions newPos"] by simp
  then have n: "filter ?f ?new = ?new" by (rule filter_True)
  have "map msg_symbol (comparePositions oldPos newPos)
          = filter ?f (allSymbols (positions oldPos) (positions newPos))"
    by (simp only: comparePositions_def Let_def symbols_of_concat)
  also have "\<dots> = filter ?f (map fst (positions oldPos)) @ filter ?f ?new"
    by (simp only: allSymbols_distinct_keys[OF assms] filter_append)
  finally show ?thesis by (simp only: n)
qed

theorem diff_follows_key_order_witness:
  "distinct (map fst (positions snapshotEB)) \<and> distinct (map fst (positions snapshotB))
   \<and> map msg_symbol (comparePositions snapshotEB snapshotB) = [''ETH'', ''BTC'']
   \<and> map msg_symbol (comparePositions snapshotB snapshotEB) = [''ETH'', ''BTC'']
   \<and> map msg_symbol (comparePositions snapshotBE snapshotB) = [''BTC'', ''ETH'']"
proof -
  have d: "distinct (map fst (positions snapshotEB))" "distinct (map fst (positions snapshotB))"
    "distinct (map fst (positions snapshotBE))"
    by (simp_all add: snapshotEB_def snapshotB_def snapshotBE_def)
  have c: "compareSymbol (positions snapshotEB) (positions snapshotB) ''ETH'' \<noteq> []"
    "compareSymbol (positions snapshotEB) (positions snapshotB) ''BTC'' \<noteq> []"
    "compareSymbol (positions snapshotBE) (positions snapshotB) ''ETH'' \<noteq> []"
    "compareSymbol (positions snapshotBE) (positions snapshotB) ''BTC'' \<noteq> []"
    by (simp_all add: compareSymbol_def snapshotEB_def snapshotBE_def snapshotB_def)
  from diff_follows_key_order[OF d(1,2)] diff_follows_key_order[OF d(2,1)]
    diff_follows_key_order[OF d(3,2)] d c
  show ?thesis
    by (simp add: snapshotEB_def snapshotB_def snapshotBE_def)
qed

text \<open>
  Claim C4 as stated fails: two snapshots that hold the same positions under a different
  key order give the messages in a different order, and the order for the keys
  \<open>ETH, BTC\<close> is not ascending.
\<close>

theorem diff_sorted_by_symbol_counterexample:
  "map_of (positions snapshotEB) = map_of (positions snapshotBE)
   \<and> map msg_symbol (comparePositions snapshotEB snapshotB) = [''ETH'', ''BTC'']
   \<and> map msg_symbol (comparePositions snapshotBE snapshotB) = [''BTC'', ''ETH'']
   \<and> \<not> sorted (map msg_symbol (comparePositions snapshotEB snapshotB))"
proof -
  have m: "map_of (positions snapshotEB) = map_of (positions snapshotBE)"
    by (rule ext) (simp add: snapshotEB_def snapshotBE_def)
  have a: "map msg_symbol (comparePositions snapshotEB snapshotB) = [''ETH'', ''BTC'']"
    by (simp add: comparePositions_def allSymbols_def compareSymbol_def snapshotEB_def
          snapshotB_def Let_def)
  have b: "map msg_symbol (comparePositions snapshotBE snapshotB) = [''BTC'', ''ETH'']"
    by (simp add: comparePositions_def allSymbols_def compareSymbol_def snapshotBE_def
          snapshotB_def Let_def)
  have c: "\<not> sorted [''ETH'', ''BTC'']"
    by (simp add: less_char_def less_eq_char_def)
  from m a b c show ?thesis by simp
qed

subsection \<open>The balance history in the monitoring cycle\<close>

lemma balanceHistory_tradeLoop:
  "balanceHistory (tradeLoop oldState newState now st) = balanceHistory st"
  unfolding tradeLoop_def by (subst fold_tradeStep) simp

lemma balanceHistory_finishUpdate:
  "balanceHistory (finishUpdate newState now st)
     = slice_last 1000 (balanceHistory st @ [\<lparr>balance_bh = balance newState, timestamp_bh = now\<rparr>])"
  by (simp add: finishUpdate_def Let_def slice_last_def)

text \<open>
  Claim C5, as amended. In the monitoring cycle of an address with a prior snapshot, the
  balance history gets its record only when the diff is not empty: then the update appends
  one record \<open>{balance of the new snapshot, now}\<close> to the history (created with its initial
  record if the address had no P&L state) and keeps the last 1000 records. When the diff
  is empty the cycle returns before the aggregator is called and the P&L state, balance
  history included, is unchanged.
\<close>

theorem balance_record_only_on_changes:
  assumes prior: "previousStates ms address = Some oldState"
      and ns: "newState = fetchPositions checksum fetched markPrice"
      and ms': "ms' = monitorAddress address checksum fetched markPrice dispatchOk now ms"
  shows "(comparePositions oldState newState = [] \<longrightarrow> walletPnL ms' = walletPnL ms)
       \<and> (comparePositions oldState newState \<noteq> [] \<longrightarrow>
            (\<exists>st0 st'.
               initializeWalletPnL address (balance newState) now (walletPnL ms) address = Some st0
             \<and> walletPnL ms' address = Some st'
             \<and> balanceHistory st'
                 = slice_last 1000
                     (balanceHistory st0 @ [\<lparr>balance_bh = balance newState, timestamp_bh = now\<rparr>])))"
proof (intro conjI impI)
  assume "comparePositions oldState newState = []"
  then show "walletPnL ms' = walletPnL ms"
    using prior ns ms' by (simp add: monitorAddress_def Let_def)
next
  assume ne: "comparePositions oldState newState \<noteq> []"
  obtain st0 where i: "initializeWalletPnL address (balance newState) now (walletPnL ms) address = Some st0"
    and u: "updateWalletPnL address oldState newState now (walletPnL ms) address
            = Some (finishUpdate newState now (tradeLoop oldState newState now st0))"
    using updateWalletPnL_at by blast
  have w: "walletPnL ms' = updateWalletPnL address oldState newState now (walletPnL ms)"
    using prior ns ms' ne by (simp add: monitorAddress_def Let_def)
  let ?st' = "finishUpdate newState now (tradeLoop oldState newState now st0)"
  have "initializeWalletPnL address (balance newState) now (walletPnL ms) address = Some st0
      \<and> walletPnL ms' address = Some ?st'
      \<and> balanceHistory ?st'
          = slice_last 1000
              (balanceHistory st0 @ [\<lparr>balance_bh = balance newState, timestamp_bh = now\<rparr>])"
    using i u w by (simp add: balanceHistory_finishUpdate balanceHistory_tradeLoop)
  then show "\<exists>st0 st'.
               initializeWalletPnL address (balance newState) now (walletPnL ms) address = Some st0
             \<and> walletPnL ms' address = Some st'
             \<and> balanceHistory st'
                 = slice_last 1000
                     (balanceHistory st0 @ [\<lparr>balance_bh = balance newState, timestamp_bh = now\<rparr>])"
    by blast
qed

theorem balance_record_only_on_changes_witness:
  "previousStates monitorEx ''0xA'' = Some snapshotA
   \<and> comparePositions snapshotA (fetchPositions (Some ''0xA'') (Json None) (\<lambda>m. None)) \<noteq> []
   \<and> (\<exists>st'. walletPnL (monitorAddress ''0xA'' (Some ''0xA'') (Json None) (\<lambda>m. None) True 7 monitorEx)
                ''0xA'' = Some st'
          \<and> balanceHistory st'
              = [\<lparr>balance_bh = 1000, timestamp_bh = 0\<rparr>, \<lparr>balance_bh = 0, timestamp_bh = 7\<rparr>])
   \<and> comparePositions snapshotA
        (fetchPositions (Some ''0xA'') (Json (Some accountBTC)) (\<lambda>m. Some 50250)) = []
   \<and> walletPnL (monitorAddress ''0xA'' (Some ''0xA'') (Json (Some accountBTC)) (\<lambda>m. Some 50250)
                  True 7 monitorEx) = walletPnL monitorEx"
proof -
  have h: "previousStates monitorEx ''0xA'' = Some snapshotA" by (simp add: monitorEx_def)
  have ne: "comparePositions snapshotA (fetchPositions (Some ''0xA'') (Json None) (\<lambda>m. None)) \<noteq> []"
    by (simp add: comparePositions_def fetchPositions_def allSymbols_def compareSymbol_def
          snapshotA_def Let_def)
  have e: "comparePositions snapshotA
        (fetchPositions (Some ''0xA'') (Json (Some accountBTC)) (\<lambda>m. Some 50250)) = []"
    by (simp add: comparePositions_def fetchPositions_def allSymbols_def compareSymbol_def
          snapshotA_def Let_def accountBTC_def btcRaw_def btcPos_def)
  have i: "initializeWalletPnL ''0xA'' (balance (fetchPositions (Some ''0xA'') (Json None) (\<lambda>m. None)))
             7 (walletPnL monitorEx) ''0xA'' = Some freshState"
    by (simp add: initializeWalletPnL_def monitorEx_def)
  from balance_record_only_on_changes[OF h refl refl, where checksum="Some ''0xA''"
      and fetched="Json None" and markPrice="\<lambda>m. None" and dispatchOk=True and now=7] ne i
  have a: "\<exists>st'. walletPnL (monitorAddress ''0xA'' (Some ''0xA'') (Json None) (\<lambda>m. None) True 7 monitorEx)
                ''0xA'' = Some st'
          \<and> balanceHistory st'
              = [\<lparr>balance_bh = 1000, timestamp_bh = 0\<rparr>, \<lparr>balance_bh = 0, timestamp_bh = 7\<rparr>]"
    by (simp add: freshState_def slice_last_def fetchPositions_def)
  from balance_record_only_on_changes[OF h refl refl, where checksum="Some ''0xA''"
      and fetched="Json (Some accountBTC)" and markPrice="\<lambda>m. Some 50250" and dispatchOk=True and now=7] e
  have b: "walletPnL (monitorAddress ''0xA'' (Some ''0xA'') (Json (Some accountBTC)) (\<lambda>m. Some 50250)
                  True 7 monitorEx) = walletPnL monitorEx"
    by simp
  from h ne a e b show ?thesis by blast
qed

text \<open>
  Claim C5 as stated fails: a cycle for an address with a prior snapshot in which the
  fetched balance differs (1010 against 1000) but no position changed leaves the P&L state
  of the address as it was, so no balance record is appended.
\<close>

theorem balance_record_every_cycle_counterexample:
  "previousStates monitorEx ''0xA'' = Some snapshotA
   \<and> walletPnL monitorEx ''0xA'' = Some freshState
   \<and> balance (fetchPositions (Some ''0xA'') (Json (Some accountBTC)) (\<lambda>m. Some 50250)) = 1010
   \<and> walletPnL (monitorAddress ''0xA'' (Some ''0xA'') (Json (Some accountBTC)) (\<lambda>m. Some 50250)
                  True 7 monitorEx) ''0xA'' = Some freshState
   \<and> previousStates (monitorAddress ''0xA'' (Some ''0xA'') (Json (Some accountBTC)) (\<lambda>m. Some 50250)
                  True 7 monitorEx) ''0xA''
       = Some (fetchPositions (Some ''0xA'') (Json (Some accountBTC)) (\<lambda>m. Some 50250))"
  by (simp add: monitorAddress_def comparePositions_def fetchPositions_def allSymbols_def
        compareSymbol_def snapshotA_def Let_def accountBTC_def btcRaw_def btcPos_def monitorEx_def)

subsection \<open>Where the code departs from the specification\<close>

text \<open>
  Claim C1 (a failed fetch leaves the prior snapshot and the P&L state unchanged) does not
  hold of the code. \<^verbatim>\<open>fetchPositions\<close> catches the failure and returns the empty snapshot
  \<open>{balance: 0, positions: {}}\<close>; the monitor cannot tell it from a real answer and diffs
  it against the prior snapshot. At the input below (prior snapshot with one BTC position
  of unrealized P&L 200, \<^verbatim>\<open>fetchWithRetry\<close> throwing) the cycle emits a
  \<^verbatim>\<open>POSITION CLOSED\<close> message, records a \<^verbatim>\<open>close\<close> trade, realises 200 and replaces the
  prior snapshot by the empty one.
\<close>

theorem failed_fetch_is_diffed_as_empty:
  "previousStates monitorEx ''0xA'' = Some snapshotA
   \<and> walletPnL monitorEx ''0xA'' = Some freshState
   \<and> fetchPositions (Some ''0xA'') Threw (\<lambda>m. None) = \<lparr>balance = 0, positions = []\<rparr>
   \<and> map title (comparePositions snapshotA (fetchPositions (Some ''0xA'') Threw (\<lambda>m. None)))
       = [''POSITION CLOSED'']
   \<and> previousStates (monitorAddress ''0xA'' (Some ''0xA'') Threw (\<lambda>m. None) True 7 monitorEx) ''0xA''
       = Some \<lparr>balance = 0, positions = []\<rparr>
   \<and> (\<exists>st'. walletPnL (monitorAddress ''0xA'' (Some ''0xA'') Threw (\<lambda>m. None) True 7 monitorEx)
                ''0xA'' = Some st'
          \<and> tradeHistory st' = [closeRecord ''BTC'' btcPos 7]
          \<and> realizedPnL st' = 200 \<and> trades st' = 1 \<and> lastBalance st' = 0)"
  by (simp add: monitorAddress_def comparePositions_def fetchPositions_def allSymbols_def
        compareSymbol_def snapshotA_def Let_def monitorEx_def updateWalletPnL_def
        initializeWalletPnL_def tradeLoop_def tradeStep_def finishUpdate_def slice_last_def
        freshState_def closeRecord_def btcPos_def)

text \<open>
  Claim C6 (a closing trade is paired with the most recent prior \<^verbatim>\<open>open\<close> of its symbol and
  side) does not hold of the code: \<^verbatim>\<open>Array.find\<close> returns the first matching record of the
  history, the oldest one. For the history open at 0 h, close at 10 h, open at 20 h, close
  at 30 h the second close is paired with the open at 0 h, so the holding times are 10 h
  and 30 h and the average is 20 h, where the pairing of the claim gives 10 h and 10 h.
\<close>

theorem hold_time_pairs_with_first_open:
  "closedTrades holdState = [close1, close2]
   \<and> openTradeFor holdState close2 = Some open1
   \<and> symbol_tr open2 = symbol_tr close2 \<and> side open2 = side close2 \<and> type_tr open2 = T_open
   \<and> timestamp open1 < timestamp open2 \<and> timestamp open2 < timestamp close2
   \<and> holdTimes holdState = [10, 30]
   \<and> avgHoldTime holdState = 20"
  by (simp add: closedTrades_def openTradeFor_def holdTimes_def avgHoldTime_def holdState_def
        open1_def close1_def open2_def close2_def openRecord_def closeRecord_def Let_def)

text \<open>
  Claim C8 (an entry-price change at equal size is reported as an "updated" event) does not
  hold of the code: \<^verbatim>\<open>comparePositions\<close> chooses between \<^verbatim>\<open>'increased'\<close> and \<^verbatim>\<open>'reduced'\<close>
  only, so equal sizes give \<^verbatim>\<open>'reduced'\<close> and the title \<^verbatim>\<open>POSITION REDUCED\<close>; the title
  \<^verbatim>\<open>POSITION UPDATED\<close> of \<^verbatim>\<open>formatPositionUpdate\<close> is never asked for. The message does carry
  the sizes and entry prices before and after, and the aggregator appends no record.
\<close>

theorem entry_price_change_is_reported_reduced:
  "position ethPos10 = position ethPos10b
   \<and> avg_entry_price ethPos10 \<noteq> avg_entry_price ethPos10b
   \<and> comparePositions snapshotE10 snapshotE10b
       = [\<lparr>title = ''POSITION REDUCED'', msg_symbol = ''ETH'', shown = ethPos10b,
           size_change = Some (10, 10), entry_change = Some (2000, 2100)\<rparr>]
   \<and> actionTitle ''updated'' = ''POSITION UPDATED''
   \<and> tradeLoop snapshotE10 snapshotE10b 7 freshState = freshState"
  by (simp add: comparePositions_def allSymbols_def compareSymbol_def formatPositionUpdate_def
        actionTitle_def snapshotE10_def snapshotE10b_def ethPos10_def ethPos10b_def Let_def
        tradeLoop_def tradeStep_def)

end
